theory Spec2Isabelle
  imports Complex_Main "HOL-Library.Multiset" "HOL-Library.Sublist"
begin

section \<open>Cards\<close>

text \<open>
  \<^verbatim>\<open>type CardRank = 'A' | '2' | ... | '10' | 'J' | 'Q' | 'K'\<close>,
  \<^verbatim>\<open>type CardSuit = 'S' | 'H' | 'D' | 'C'\<close> and
  \<^verbatim>\<open>type Card = `${CardRank}${CardSuit}`\<close>: two unions of string literals and the
  template literal type of their concatenations.  The unions are datatypes; a card is
  the pair of the two literals it was built from.  \<open>rank_str\<close>, \<open>suit_str\<close> and
  \<open>card_str\<close> give the strings of the source.
\<close>

datatype CardRank =
  Rank_A | Rank_2 | Rank_3 | Rank_4 | Rank_5 | Rank_6 | Rank_7
  | Rank_8 | Rank_9 | Rank_10 | Rank_J | Rank_Q | Rank_K

datatype CardSuit = Suit_S | Suit_H | Suit_D | Suit_C

datatype Card = Card (rank_of: CardRank) (suit_of: CardSuit)

fun rank_str :: "CardRank \<Rightarrow> string" where
  "rank_str Rank_A = ''A''"
| "rank_str Rank_2 = ''2''"
| "rank_str Rank_3 = ''3''"
| "rank_str Rank_4 = ''4''"
| "rank_str Rank_5 = ''5''"
| "rank_str Rank_6 = ''6''"
| "rank_str Rank_7 = ''7''"
| "rank_str Rank_8 = ''8''"
| "rank_str Rank_9 = ''9''"
| "rank_str Rank_10 = ''10''"
| "rank_str Rank_J = ''J''"
| "rank_str Rank_Q = ''Q''"
| "rank_str Rank_K = ''K''"

fun suit_str :: "CardSuit \<Rightarrow> string" where
  "suit_str Suit_S = ''S''"
| "suit_str Suit_H = ''H''"
| "suit_str Suit_D = ''D''"
| "suit_str Suit_C = ''C''"

definition card_str :: "Card \<Rightarrow> string" where
  "card_str c = rank_str (rank_of c) @ suit_str (suit_of c)"

text \<open>\<^verbatim>\<open>c.startsWith(claimedRank)\<close> on the strings of the source.\<close>

definition startsWith :: "Card \<Rightarrow> CardRank \<Rightarrow> bool" where
  "startsWith c claimed = prefix (rank_str claimed) (card_str c)"

definition ranks :: "CardRank list" where
  "ranks = [Rank_A, Rank_2, Rank_3, Rank_4, Rank_5, Rank_6, Rank_7,
            Rank_8, Rank_9, Rank_10, Rank_J, Rank_Q, Rank_K]"

definition suits :: "CardSuit list" where
  "suits = [Suit_S, Suit_H, Suit_D, Suit_C]"

definition ranksInOrder :: "CardRank list" where
  "ranksInOrder = [Rank_A, Rank_2, Rank_3, Rank_4, Rank_5, Rank_6, Rank_7,
                   Rank_8, Rank_9, Rank_10, Rank_J, Rank_Q, Rank_K]"

section \<open>Array helpers of the source language\<close>

text \<open>
  \<^verbatim>\<open>findIndex\<close> and \<^verbatim>\<open>indexOf\<close> return the first matching position, or \<open>-1\<close>.
  The model returns \<open>None\<close> for \<open>-1\<close>; \<open>js_index\<close> gives the number of the source
  where the code computes with it.  \<^verbatim>\<open>find\<close> returns a reference to the element at
  that position, so the model uses the position.
\<close>

fun findIndex :: "('a \<Rightarrow> bool) \<Rightarrow> 'a list \<Rightarrow> nat option" where
  "findIndex P [] = None"
| "findIndex P (x # xs) =
     (if P x then Some 0 else map_option Suc (findIndex P xs))"

definition indexOf :: "'a \<Rightarrow> 'a list \<Rightarrow> nat option" where
  "indexOf c xs = findIndex (\<lambda>x. x = c) xs"

definition js_index :: "nat option \<Rightarrow> int" where
  "js_index r = (case r of None \<Rightarrow> - 1 | Some i \<Rightarrow> int i)"

text \<open>\<^verbatim>\<open>xs.splice(idx, 1)\<close> for \<open>0 \<le> idx < length\<close>.\<close>

definition remove_nth :: "nat \<Rightarrow> 'a list \<Rightarrow> 'a list" where
  "remove_nth i xs = take i xs @ drop (Suc i) xs"

text \<open>
  \<^verbatim>\<open>xs.splice(hand.indexOf(c), 1)\<close>: with index \<open>-1\<close> the start is taken from the
  end, so the last element is removed (nothing when the array is empty).
\<close>

definition splice_indexOf :: "'a \<Rightarrow> 'a list \<Rightarrow> 'a list" where
  "splice_indexOf c xs =
     (case indexOf c xs of None \<Rightarrow> butlast xs | Some idx \<Rightarrow> remove_nth idx xs)"

text \<open>
  \<^verbatim>\<open>xs.slice(-n)\<close> for \<open>n \<ge> 0\<close>: the last \<open>n\<close> elements, all of them when there
  are fewer; \<open>-0\<close> is \<open>0\<close>, so \<^verbatim>\<open>slice(-0)\<close> is the whole array.
\<close>

definition slice_neg :: "nat \<Rightarrow> 'a list \<Rightarrow> 'a list" where
  "slice_neg n xs = (if n = 0 then xs else drop (length xs - n) xs)"

section \<open>Deck construction\<close>

text \<open>The three nested loops of \<^verbatim>\<open>createDeck\<close>, before the shuffle.\<close>

definition ordered_deck :: "nat \<Rightarrow> Card list" where
  "ordered_deck numDecks =
     concat (map (\<lambda>d. concat (map (\<lambda>r. map (\<lambda>s. Card r s) suits) ranks)) [0..<numDecks])"

text \<open>
  The shuffle loop \<^verbatim>\<open>for (let i = deck.length - 1; i > 0; i--)\<close>.  The source draws
  \<^verbatim>\<open>j = Math.floor(Math.random() * (i + 1))\<close>, some index in \<open>0..i\<close>; the model
  takes the draws from a parameter \<open>rnd\<close> (the draw of iteration \<open>i\<close> is
  \<open>rnd i mod (i + 1)\<close>, so every index in \<open>0..i\<close> and nothing else can be drawn).
\<close>

fun shuffle_loop :: "(nat \<Rightarrow> nat) \<Rightarrow> nat \<Rightarrow> Card list \<Rightarrow> Card list" where
  "shuffle_loop rnd 0 deck = deck"
| "shuffle_loop rnd (Suc k) deck =
     (let i = Suc k; j = rnd i mod (i + 1)
      in shuffle_loop rnd k (deck[i := deck ! j, j := deck ! i]))"

definition createDeck :: "nat \<Rightarrow> (nat \<Rightarrow> nat) \<Rightarrow> Card list" where
  "createDeck numDecks rnd =
     (let deck = ordered_deck numDecks in shuffle_loop rnd (length deck - 1) deck)"

definition ceilDiv :: "nat \<Rightarrow> nat \<Rightarrow> nat" where
  "ceilDiv a b = (a + b - 1) div b"

section \<open>Session state\<close>

record PlayerState =
  id_player :: string
  name :: string
  socketId :: string
  hand :: "Card list"
  isHost :: bool

record PlayRecord =
  username :: string
  count_play :: nat
  claimedRank :: CardRank

text \<open>
  The optional fields \<^verbatim>\<open>bsWindowUntil\<close>, \<^verbatim>\<open>peanutButterEligiblePlayerId\<close> and
  \<^verbatim>\<open>hasNextPlayerPlayedAfterLiar\<close> are \<open>None\<close> when undefined.  Times are epoch
  milliseconds.
\<close>

record GameState =
  id_game :: string
  players :: "PlayerState list"
  hostId :: string
  started :: bool
  currentTurnIndex :: nat
  currentRequiredRank :: CardRank
  pileFaceDown :: "Card list"
  lastPlay :: "PlayRecord option"
  bsWindowUntil :: "nat option"
  peanutButterEligiblePlayerId :: "string option"
  hasNextPlayerPlayedAfterLiar :: "bool option"

text \<open>Truthiness of an optional string and of an optional flag.\<close>

definition truthy_id :: "string option \<Rightarrow> bool" where
  "truthy_id x = (case x of None \<Rightarrow> False | Some s \<Rightarrow> s \<noteq> [])"

definition truthy_flag :: "bool option \<Rightarrow> bool" where
  "truthy_flag x = (case x of None \<Rightarrow> False | Some b \<Rightarrow> b)"

text \<open>\<^verbatim>\<open>!g.bsWindowUntil || Date.now() > g.bsWindowUntil\<close>.\<close>

definition outside_window :: "nat option \<Rightarrow> nat \<Rightarrow> bool" where
  "outside_window w now = (case w of None \<Rightarrow> True | Some t \<Rightarrow> t = 0 \<or> now > t)"

definition nextRank :: "CardRank \<Rightarrow> CardRank" where
  "nextRank rank =
     (let idx = js_index (indexOf rank ranksInOrder)
      in ranksInOrder ! nat ((idx + 1) mod int (length ranksInOrder)))"

section \<open>Dealing\<close>

text \<open>
  The loop of \<^verbatim>\<open>dealHands\<close>: \<^verbatim>\<open>deck.pop()\<close> takes the last card of the deck and
  the recipient's hand gets it at its end.
\<close>

function deal_loop :: "nat \<Rightarrow> nat \<Rightarrow> Card list \<Rightarrow> PlayerState list \<Rightarrow> PlayerState list" where
  "deal_loop startIndex i deck ps =
     (if deck = [] then ps
      else
        let r = (startIndex + i) mod length ps
        in deal_loop startIndex (i + 1) (butlast deck)
             (ps[r := (ps ! r)\<lparr>hand := hand (ps ! r) @ [last deck]\<rparr>]))"
  by pat_completeness auto
termination
  by (relation "measure (\<lambda>(s, i, deck, ps). length deck)") auto

declare deal_loop.simps [simp del]

text \<open>
  \<^verbatim>\<open>dealHands\<close>.  With no player the index is \<open>NaN\<close>, the recipient is undefined and
  the first push throws: \<open>None\<close>.  (\<^verbatim>\<open>game:start\<close> calls it with two players or more.)
\<close>

definition dealHands :: "PlayerState list \<Rightarrow> string \<Rightarrow> (nat \<Rightarrow> nat) \<Rightarrow> PlayerState list option" where
  "dealHands ps dealerId rnd =
     (let numDecks = max 1 (ceilDiv (length ps) 5);
          deck = createDeck numDecks rnd;
          dealerIndex = max 0 (js_index (findIndex (\<lambda>p. id_player p = dealerId) ps))
      in if ps = [] then None
         else
           let startIndex = nat ((dealerIndex + 1) mod int (length ps))
           in Some (deal_loop startIndex 0 deck ps))"

definition getMaxSelectable :: "PlayerState list \<Rightarrow> nat" where
  "getMaxSelectable ps = (let numDecks = max 1 (ceilDiv (length ps) 5) in numDecks * 4)"

section \<open>The handlers\<close>

text \<open>
  Each handler is modelled on the session it found (\<^verbatim>\<open>games.get(sessionId)\<close>); a
  handler that returns before it changes anything gives \<open>None\<close>, and \<open>after\<close> is the
  session as the handler leaves it.  The identifiers that \<^verbatim>\<open>uuid()\<close> draws, the
  socket's id and \<^verbatim>\<open>Date.now()\<close> are parameters.
\<close>

definition after :: "GameState \<Rightarrow> GameState option \<Rightarrow> GameState" where
  "after g r = (case r of None \<Rightarrow> g | Some g' \<Rightarrow> g')"

definition session_create :: "string \<Rightarrow> string \<Rightarrow> string \<Rightarrow> string \<Rightarrow> GameState" where
  "session_create uname sock newId newPlayerId =
     \<lparr>id_game = newId,
      players = [\<lparr>id_player = newPlayerId, name = uname, socketId = sock,
                  hand = [], isHost = True\<rparr>],
      hostId = newPlayerId,
      started = False,
      currentTurnIndex = 0,
      currentRequiredRank = Rank_A,
      pileFaceDown = [],
      lastPlay = None,
      bsWindowUntil = None,
      peanutButterEligiblePlayerId = None,
      hasNextPlayerPlayedAfterLiar = None\<rparr>"

definition session_join :: "GameState \<Rightarrow> string \<Rightarrow> string \<Rightarrow> string \<Rightarrow> GameState option" where
  "session_join g uname sock newPlayerId =
     (if started g \<or> length (players g) \<ge> 10 then None
      else Some (g\<lparr>players := players g @
             [\<lparr>id_player = newPlayerId, name = uname, socketId = sock,
               hand = [], isHost = False\<rparr>]\<rparr>))"

definition session_kick :: "GameState \<Rightarrow> string \<Rightarrow> string \<Rightarrow> GameState option" where
  "session_kick g playerId by =
     (if hostId g \<noteq> by \<or> started g then None
      else Some (g\<lparr>players := filter (\<lambda>p. id_player p \<noteq> playerId) (players g)\<rparr>))"

definition game_start :: "GameState \<Rightarrow> string \<Rightarrow> (nat \<Rightarrow> nat) \<Rightarrow> GameState option" where
  "game_start g by rnd =
     (if started g then None
      else
        let canStart = (length (players g) \<ge> 2)
        in if \<not> canStart \<or> hostId g \<noteq> by then None
           else
             case dealHands (map (\<lambda>p. p\<lparr>hand := []\<rparr>) (players g)) (hostId g) rnd of
               None \<Rightarrow> None
             | Some ps \<Rightarrow>
                 let dealerIndex = js_index (findIndex (\<lambda>p. id_player p = hostId g) ps)
                 in Some (g\<lparr>players := ps,
                           started := True,
                           currentTurnIndex := nat ((dealerIndex + 1) mod int (length ps)),
                           currentRequiredRank := Rank_A,
                           pileFaceDown := [],
                           lastPlay := None,
                           bsWindowUntil := None,
                           peanutButterEligiblePlayerId := None,
                           hasNextPlayerPlayedAfterLiar := Some False\<rparr>))"

text \<open>
  The second loop of \<^verbatim>\<open>game:play\<close>: for each submitted card, splice the hand at
  \<^verbatim>\<open>indexOf\<close> and push the card on the pile.
\<close>

fun play_loop :: "Card list \<Rightarrow> Card list \<Rightarrow> Card list \<Rightarrow> Card list \<times> Card list" where
  "play_loop [] h pile = (h, pile)"
| "play_loop (c # cs) h pile = play_loop cs (splice_indexOf c h) (pile @ [c])"

text \<open>The first loop: some submitted card is not in the hand.\<close>

definition not_owned :: "Card list \<Rightarrow> Card list \<Rightarrow> bool" where
  "not_owned cards h = list_ex (\<lambda>c. indexOf c h = None) cards"

definition game_play ::
  "GameState \<Rightarrow> string \<Rightarrow> Card list \<Rightarrow> CardRank \<Rightarrow> nat \<Rightarrow> GameState option" where
  "game_play g by cards claimed now =
     (if \<not> started g then None
      else if currentTurnIndex g \<ge> length (players g) then None
      else if id_player (players g ! currentTurnIndex g) \<noteq> by then None
      else
        case findIndex (\<lambda>p. id_player p = by) (players g) of
          None \<Rightarrow> None
        | Some pidx \<Rightarrow>
            let player = players g ! pidx;
                maxSelectable = getMaxSelectable (players g)
            in if length cards < 1 \<or> length cards > maxSelectable then None
               else if not_owned cards (hand player) then None
               else
                 let (h', pile') = play_loop cards (hand player) (pileFaceDown g)
                 in Some (g\<lparr>players := (players g)[pidx := player\<lparr>hand := h'\<rparr>],
                           pileFaceDown := pile',
                           lastPlay := Some \<lparr>username = name player,
                                             count_play = length cards,
                                             claimedRank = claimed\<rparr>,
                           bsWindowUntil := Some (now + 5000),
                           hasNextPlayerPlayedAfterLiar :=
                             Some (truthy_id (peanutButterEligiblePlayerId g) \<and>
                                   peanutButterEligiblePlayerId g \<noteq> Some (id_player player)),
                           peanutButterEligiblePlayerId := Some (id_player player),
                           currentTurnIndex :=
                             (currentTurnIndex g + 1) mod length (players g),
                           currentRequiredRank := nextRank (currentRequiredRank g)\<rparr>))"

definition give_pile :: "GameState \<Rightarrow> nat \<Rightarrow> PlayerState list" where
  "give_pile g k =
     (players g)[k := (players g ! k)\<lparr>hand := hand (players g ! k) @ pileFaceDown g\<rparr>]"

definition game_bs :: "GameState \<Rightarrow> string \<Rightarrow> nat \<Rightarrow> GameState option" where
  "game_bs g by now =
     (if \<not> started g then None
      else
        case lastPlay g of
          None \<Rightarrow> None
        | Some lp \<Rightarrow>
            if outside_window (bsWindowUntil g) now then None
            else
              case findIndex (\<lambda>p. name p = username lp) (players g) of
                None \<Rightarrow> None
              | Some lastPlayer \<Rightarrow>
                  let lastPlayedCards = slice_neg (count_play lp) (pileFaceDown g);
                      liar = list_ex (\<lambda>c. \<not> startsWith c (claimedRank lp)) lastPlayedCards
                  in case findIndex (\<lambda>p. id_player p = by) (players g) of
                       None \<Rightarrow> None
                     | Some caller \<Rightarrow>
                         let loser = (if liar then lastPlayer else caller)
                         in Some (g\<lparr>players := give_pile g loser,
                                   pileFaceDown := [],
                                   bsWindowUntil := None,
                                   lastPlay := None,
                                   peanutButterEligiblePlayerId := None,
                                   hasNextPlayerPlayedAfterLiar := Some False\<rparr>))"

definition game_peanutButter :: "GameState \<Rightarrow> string \<Rightarrow> GameState option" where
  "game_peanutButter g by =
     (if \<not> started g \<or> \<not> truthy_id (peanutButterEligiblePlayerId g) then None
      else if \<not> truthy_flag (hasNextPlayerPlayedAfterLiar g) then None
      else if peanutButterEligiblePlayerId g \<noteq> Some by then None
      else
        case lastPlay g of
          None \<Rightarrow> None
        | Some lp \<Rightarrow>
            case findIndex (\<lambda>p. name p = username lp) (players g) of
              None \<Rightarrow> None
            | Some lastPlayer \<Rightarrow>
                Some (g\<lparr>players := give_pile g lastPlayer,
                        pileFaceDown := [],
                        lastPlay := None,
                        peanutButterEligiblePlayerId := None,
                        hasNextPlayerPlayedAfterLiar := Some False\<rparr>))"

text \<open>
  The body of the \<^verbatim>\<open>disconnect\<close> loop for one session: the first player bound to
  the socket is spliced out; a departing host hands the role to the new first player.
\<close>

definition disconnect_game :: "GameState \<Rightarrow> string \<Rightarrow> GameState option" where
  "disconnect_game g sock =
     (case findIndex (\<lambda>p. socketId p = sock) (players g) of
        None \<Rightarrow> None
      | Some idx \<Rightarrow>
          let wasHost = (id_player (players g ! idx) = hostId g);
              ps = remove_nth idx (players g)
          in if wasHost \<and> ps \<noteq> []
             then Some (g\<lparr>players := (hd ps)\<lparr>isHost := True\<rparr> # tl ps,
                         hostId := id_player (hd ps)\<rparr>)
             else Some (g\<lparr>players := ps\<rparr>))"

text \<open>The registry \<^verbatim>\<open>games\<close> and the whole \<^verbatim>\<open>disconnect\<close> handler over it.\<close>

type_synonym registry = "string \<rightharpoonup> GameState"

definition disconnect :: "registry \<Rightarrow> string \<Rightarrow> registry" where
  "disconnect games sock =
     (\<lambda>sid. map_option (\<lambda>g. after g (disconnect_game g sock)) (games sid))"

section \<open>Quantities the properties speak of\<close>

text \<open>The host id names no player of the session.\<close>

definition host_absent :: "GameState \<Rightarrow> bool" where
  "host_absent g = list_all (\<lambda>p. id_player p \<noteq> hostId g) (players g)"

text \<open>All the cards held in hands, player after player.\<close>

definition all_hands :: "PlayerState list \<Rightarrow> Card list" where
  "all_hands ps = concat (map hand ps)"

definition total_cards :: "GameState \<Rightarrow> nat" where
  "total_cards g = sum_list (map (\<lambda>p. length (hand p)) (players g)) + length (pileFaceDown g)"

section \<open>Concrete sessions\<close>

text \<open>
  A lobby of three: Carol creates the session, Alice and Bob join.  \<open>table3\<close> is the
  session after Carol starts the game, with a shuffle whose every draw is \<open>j = i\<close>
  (each card is swapped with itself).  Alice, the player after the dealer, is to play.
\<close>

definition lobby3 :: GameState where
  "lobby3 =
     (let g0 = session_create ''Carol'' ''sc'' ''g1'' ''c'';
          g1 = after g0 (session_join g0 ''Alice'' ''sa'' ''a'')
      in after g1 (session_join g1 ''Bob'' ''sb'' ''b''))"

definition table3 :: GameState where
  "table3 = after lobby3 (game_start lobby3 ''c'' (\<lambda>i. i))"

text \<open>
  Alice plays the five of diamonds as a five at time 1000; Bob, unchallenged, plays the
  six of clubs as a six at time 9000, after Alice's window has closed.
\<close>

definition after_alice :: GameState where
  "after_alice = after table3 (game_play table3 ''a'' [Card Rank_5 Suit_D] Rank_5 1000)"

definition after_bob :: GameState where
  "after_bob = after after_alice (game_play after_alice ''b'' [Card Rank_6 Suit_C] Rank_6 9000)"

text \<open>Instead, Alice submits the five of diamonds twice in one play.\<close>

definition double_five :: GameState where
  "double_five =
     after table3
       (game_play table3 ''a'' [Card Rank_5 Suit_D, Card Rank_5 Suit_D] Rank_5 1000)"

text \<open>After Alice's play, Carol's connection drops; or Alice's own.\<close>

definition carol_left :: GameState where
  "carol_left = after after_alice (disconnect_game after_alice ''sc'')"

definition alice_left :: GameState where
  "alice_left = after after_alice (disconnect_game after_alice ''sa'')"

text \<open>
  Dave joins the lobby of three and Carol kicks him before she starts; and the lobby
  after Carol, the host, kicks herself.
\<close>

definition lobby4 :: GameState where
  "lobby4 = after lobby3 (session_join lobby3 ''Dave'' ''sd'' ''d'')"

definition hostless :: GameState where
  "hostless = after lobby3 (session_kick lobby3 ''c'' ''c'')"

text \<open>
  A session with two players called Sam: Sam creates it, Bob and another Sam join, the
  first Sam starts it.  Bob plays the five of diamonds as an ace at time 1000 and the
  second Sam plays the king of diamonds as a two at time 9000.
\<close>

definition two_sams_lobby :: GameState where
  "two_sams_lobby =
     (let g0 = session_create ''Sam'' ''t1'' ''g2'' ''s1'';
          g1 = after g0 (session_join g0 ''Bob'' ''tb'' ''b'')
      in after g1 (session_join g1 ''Sam'' ''t2'' ''s2''))"

definition two_sams_table :: GameState where
  "two_sams_table = after two_sams_lobby (game_start two_sams_lobby ''s1'' (\<lambda>i. i))"

definition two_sams_played :: GameState where
  "two_sams_played =
     (let g1 = after two_sams_table
                 (game_play two_sams_table ''b'' [Card Rank_5 Suit_D] Rank_A 1000)
      in after g1 (game_play g1 ''s2'' [Card Rank_K Suit_D] Rank_2 9000))"

section \<open>The dealing loop, card by card\<close>

text \<open>
  The dealing loop as a recursion over the cards in the order they are popped; it is
  proved equal to \<open>deal_loop\<close> on the reversed deck and used in the proofs only.
\<close>

fun deal_list :: "nat \<Rightarrow> nat \<Rightarrow> Card list \<Rightarrow> PlayerState list \<Rightarrow> PlayerState list" where
  "deal_list s i [] ps = ps"
| "deal_list s i (d # ds) ps =
     deal_list s (i + 1) ds
       (ps[(s + i) mod length ps := (ps ! ((s + i) mod length ps))
            \<lparr>hand := hand (ps ! ((s + i) mod length ps)) @ [d]\<rparr>])"

section \<open>Facts about the helpers\<close>

lemma startsWith_rank: "startsWith c r \<longleftrightarrow> rank_of c = r"
  by (cases c; cases r; cases "rank_of c"; cases "suit_of c")
     (simp_all add: startsWith_def card_str_def)

lemma findIndex_Some:
  "findIndex P xs = Some i \<Longrightarrow> i < length xs \<and> P (xs ! i) \<and> (\<forall>j<i. \<not> P (xs ! j))"
proof (induction xs arbitrary: i)
  case Nil
  then show ?case by simp
next
  case (Cons x xs)
  show ?case
  proof (cases "P x")
    case True
    with Cons.prems show ?thesis by simp
  next
    case False
    with Cons.prems obtain k where k: "findIndex P xs = Some k" "i = Suc k"
      by auto
    from Cons.IH [OF k(1)] False k(2) show ?thesis
      by (auto simp: nth_Cons split: nat.splits)
  qed
qed

lemma findIndex_None: "findIndex P xs = None \<longleftrightarrow> (\<forall>x\<in>set xs. \<not> P x)"
  by (induction xs) auto

lemma findIndex_map: "findIndex P (map f xs) = findIndex (\<lambda>x. P (f x)) xs"
  by (induction xs) auto

lemma findIndex_first:
  "i < length xs \<Longrightarrow> P (xs ! i) \<Longrightarrow> \<forall>j<i. \<not> P (xs ! j) \<Longrightarrow> findIndex P xs = Some i"
proof (induction xs arbitrary: i)
  case Nil
  then show ?case by simp
next
  case (Cons x xs)
  show ?case
  proof (cases i)
    case 0
    with Cons.prems show ?thesis by simp
  next
    case (Suc k)
    with Cons.prems have "\<not> P x" by auto
    moreover have "findIndex P xs = Some k"
      using Cons.prems Suc by (intro Cons.IH) auto
    ultimately show ?thesis using Suc by simp
  qed
qed

lemma one_deck_count:
  "count (mset (concat (map (\<lambda>r. map (\<lambda>s. Card r s) suits) ranks))) c = 1"
  by (cases c; cases "rank_of c"; cases "suit_of c") (simp_all add: ranks_def suits_def)

lemma one_deck_length:
  "length (concat (map (\<lambda>r. map (\<lambda>s. Card r s) suits) ranks)) = 52"
  by (simp add: ranks_def suits_def)

lemma ordered_deck_length: "length (ordered_deck n) = 52 * n"
  unfolding ordered_deck_def
  by (induction n) (simp_all add: one_deck_length del: upt_Suc add: upt_Suc_append)

lemma ordered_deck_count: "count (mset (ordered_deck n)) c = n"
  unfolding ordered_deck_def
  by (induction n) (simp_all add: one_deck_count)

lemma shuffle_loop_mset:
  "k < length deck \<or> k = 0 \<Longrightarrow> mset (shuffle_loop rnd k deck) = mset deck"
proof (induction k arbitrary: deck)
  case 0
  then show ?case by simp
next
  case (Suc k)
  let ?j = "rnd (Suc k) mod (Suc k + 1)"
  let ?d = "deck[Suc k := deck ! ?j, ?j := deck ! Suc k]"
  from Suc.prems have i: "Suc k < length deck" by simp
  have j: "?j < length deck" using i
  proof -
    have "?j < Suc k + 1" by (rule mod_less_divisor) simp
    with i show ?thesis by linarith
  qed
  have "mset (shuffle_loop rnd k ?d) = mset ?d"
    using i by (intro Suc.IH) simp
  also have "\<dots> = mset deck" by (rule mset_swap [OF j i])
  finally show ?case by (simp add: Let_def)
qed

lemma createDeck_mset: "mset (createDeck n rnd) = mset (ordered_deck n)"
  unfolding createDeck_def Let_def
  by (rule shuffle_loop_mset) (cases "ordered_deck n"; simp)

lemma createDeck_length: "length (createDeck n rnd) = 52 * n"
proof -
  have "length (createDeck n rnd) = size (mset (createDeck n rnd))" by simp
  also have "\<dots> = size (mset (ordered_deck n))" by (simp only: createDeck_mset)
  finally show ?thesis by (simp add: ordered_deck_length)
qed

lemma createDeck_count: "count (mset (createDeck n rnd)) c = n"
  by (simp add: createDeck_mset ordered_deck_count)

lemma deal_loop_list: "deal_loop s i deck ps = deal_list s i (rev deck) ps"
proof (induction s i deck ps rule: deal_loop.induct)
  case (1 s i deck ps)
  show ?case
  proof (cases "deck = []")
    case True
    then show ?thesis by (simp add: deal_loop.simps)
  next
    case False
    then have r: "rev deck = last deck # rev (butlast deck)"
      by (metis append_butlast_last_id rev.simps(2) rev_rev_ident rev_singleton_conv rev_append append_Cons append_Nil)
    show ?thesis
      using False "1.IH" [OF False refl]
      by (subst deal_loop.simps) (simp add: r Let_def)
  qed
qed

lemma deal_list_length [simp]: "length (deal_list s i ds ps) = length ps"
  by (induction ds arbitrary: i ps) simp_all

lemma map_update_same: "(map f ps)[r := f (ps ! r)] = map f ps"
  by (cases "r < length ps") (simp_all add: list_update_same_conv list_update_beyond)

lemma deal_list_ids: "map id_player (deal_list s i ds ps) = map id_player ps"
  by (induction ds arbitrary: i ps) (simp_all add: map_update map_update_same)

lemma deal_list_hand:
  "p < length ps \<Longrightarrow>
   hand (deal_list s i ds ps ! p) =
     hand (ps ! p) @ map (\<lambda>k. ds ! k) (filter (\<lambda>k. (s + (i + k)) mod length ps = p) [0..<length ds])"
proof (induction ds arbitrary: i ps)
  case Nil
  then show ?case by simp
next
  case (Cons d ds)
  let ?r = "(s + i) mod length ps"
  let ?ps = "ps[?r := (ps ! ?r)\<lparr>hand := hand (ps ! ?r) @ [d]\<rparr>]"
  have len: "length ?ps = length ps" by simp
  have up: "[0..<length (d # ds)] = 0 # map Suc [0..<length ds]"
  proof -
    have "[0..<Suc (length ds)] = 0 # [Suc 0..<Suc (length ds)]"
      by (rule upt_conv_Cons) simp
    then show ?thesis by (simp only: map_Suc_upt length_Cons)
  qed
  have h0: "hand (?ps ! p) = hand (ps ! p) @ (if ?r = p then [d] else [])"
    using Cons.prems by (simp add: nth_list_update)
  have "hand (deal_list s i (d # ds) ps ! p) = hand (deal_list s (i + 1) ds ?ps ! p)"
    by simp
  also have "\<dots> = hand (?ps ! p) @
      map (\<lambda>k. ds ! k) (filter (\<lambda>k. (s + (i + 1 + k)) mod length ?ps = p) [0..<length ds])"
    using Cons.prems by (intro Cons.IH) simp
  finally show ?case
    unfolding up h0 len
    by (simp add: filter_map comp_def)
qed

lemma div_window:
  fixes n :: nat
  assumes "0 < n"
  shows "(x + L) div n = x div n + L div n \<or> (x + L) div n = x div n + L div n + 1"
proof -
  have e: "(x + L) div n = x div n + L div n + (x mod n + L mod n) div n"
    by (rule div_add1_eq)
  have "x mod n < n" "L mod n < n" using assms by simp_all
  then have "x mod n + L mod n < 2 * n" by linarith
  then have "(x mod n + L mod n) div n < 2" by (rule less_mult_imp_div_less)
  with e show ?thesis by linarith
qed

lemma mod_hit:
  fixes n :: nat
  assumes "p < n"
  shows "(Suc (M + (n - 1 - p))) mod n = 0 \<longleftrightarrow> M mod n = p"
proof -
  let ?r = "M mod n"
  have rn: "?r < n" using assms by simp
  have "Suc (M + (n - 1 - p)) = M + (n - p)" using assms by simp
  then have "(Suc (M + (n - 1 - p))) mod n = (M + (n - p)) mod n"
    by (simp only:)
  also have "\<dots> = (?r + (n - p)) mod n"
    by (rule mod_add_left_eq [symmetric])
  also have "\<dots> = (if ?r < p then ?r + (n - p) else ?r - p)"
  proof (cases "?r < p")
    case True
    then have "?r + (n - p) < n" using assms by linarith
    then show ?thesis using True by simp
  next
    case False
    then have a: "?r + (n - p) = (?r - p) + n" using assms by linarith
    have b: "?r - p < n" using rn by linarith
    have "(?r + (n - p)) mod n = ((?r - p) + n) mod n" by (simp only: a)
    also have "\<dots> = (?r - p) mod n" by (rule mod_add_self2)
    also have "\<dots> = ?r - p" using b by (rule mod_less)
    finally show ?thesis using False by (simp only: if_False)
  qed
  finally show ?thesis using assms by (auto split: if_splits)
qed

lemma count_residue:
  fixes n :: nat
  assumes "p < n"
  shows "length (filter (\<lambda>k. k mod n = p) [0..<M]) = (M + (n - 1 - p)) div n"
proof (induction M)
  case 0
  have "n - 1 - p < n" using assms by linarith
  then show ?case by simp
next
  case (Suc M)
  have "(Suc M + (n - 1 - p)) div n =
        (M + (n - 1 - p)) div n + (if M mod n = p then 1 else 0)"
    using mod_hit [OF assms, of M] by (simp add: div_Suc)
  with Suc show ?case by simp
qed

lemma count_shifted:
  fixes n :: nat
  assumes "p < n"
  shows "length (filter (\<lambda>k. (s + k) mod n = p) [0..<L]) =
         (s + L + (n - 1 - p)) div n - (s + (n - 1 - p)) div n"
proof -
  have m: "map (\<lambda>k. k + s) [0..<L] = [s..<L + s]" by (rule map_add_upt)
  have "length (filter (\<lambda>k. (s + k) mod n = p) [0..<L]) =
        length (filter (\<lambda>j. j mod n = p) (map (\<lambda>k. k + s) [0..<L]))"
    by (simp add: filter_map comp_def add.commute)
  also have "\<dots> = length (filter (\<lambda>j. j mod n = p) [s..<s + L])"
    by (simp only: m add.commute)
  also have "\<dots> = length (filter (\<lambda>j. j mod n = p) [0..<s + L]) -
                   length (filter (\<lambda>j. j mod n = p) [0..<s])"
  proof -
    have "[0..<s + L] = [0..<s] @ [s..<s + L]" by (rule upt_add_eq_append) simp
    then show ?thesis by simp
  qed
  finally show ?thesis by (simp add: count_residue [OF assms])
qed

lemma deal_share:
  fixes n :: nat
  assumes "p < n"
  shows "length (filter (\<lambda>k. (s + k) mod n = p) [0..<L]) = L div n \<or>
         length (filter (\<lambda>k. (s + k) mod n = p) [0..<L]) = L div n + 1"
proof -
  have n: "0 < n" using assms by simp
  define x where "x = s + (n - 1 - p)"
  have "s + L + (n - 1 - p) = x + L" by (simp add: x_def)
  then have c: "length (filter (\<lambda>k. (s + k) mod n = p) [0..<L]) = (x + L) div n - x div n"
    unfolding count_shifted [OF assms] x_def by (simp only:)
  from div_window [OF n, of x L] show ?thesis
    unfolding c by auto
qed

lemma all_hands_push:
  assumes "r < length ps"
  shows "mset (all_hands (ps[r := (ps ! r)\<lparr>hand := hand (ps ! r) @ cs\<rparr>])) =
         mset (all_hands ps) + mset cs"
proof -
  have ps: "ps = take r ps @ ps ! r # drop (Suc r) ps"
    using assms by (rule id_take_nth_drop)
  have "ps[r := (ps ! r)\<lparr>hand := hand (ps ! r) @ cs\<rparr>] =
        take r ps @ (ps ! r)\<lparr>hand := hand (ps ! r) @ cs\<rparr> # drop (Suc r) ps"
    using assms by (rule upd_conv_take_nth_drop)
  then have "mset (all_hands (ps[r := (ps ! r)\<lparr>hand := hand (ps ! r) @ cs\<rparr>])) =
        mset (all_hands (take r ps)) + (mset (hand (ps ! r)) + mset cs)
        + mset (all_hands (drop (Suc r) ps))"
    by (simp add: all_hands_def)
  moreover have "mset (all_hands ps) =
        mset (all_hands (take r ps)) + mset (hand (ps ! r)) + mset (all_hands (drop (Suc r) ps))"
    by (subst ps) (simp add: all_hands_def)
  ultimately show ?thesis by simp
qed

lemma deal_list_mset:
  "ps \<noteq> [] \<Longrightarrow> mset (all_hands (deal_list s i ds ps)) = mset (all_hands ps) + mset ds"
proof (induction ds arbitrary: i ps)
  case Nil
  then show ?case by simp
next
  case (Cons d ds)
  let ?r = "(s + i) mod length ps"
  let ?ps = "ps[?r := (ps ! ?r)\<lparr>hand := hand (ps ! ?r) @ [d]\<rparr>]"
  have r: "?r < length ps" using Cons.prems by simp
  have "?ps \<noteq> []" using Cons.prems by simp
  then have "mset (all_hands (deal_list s (i + 1) ds ?ps)) = mset (all_hands ?ps) + mset ds"
    by (rule Cons.IH)
  also have "mset (all_hands ?ps) = mset (all_hands ps) + mset [d]"
    using r by (rule all_hands_push)
  finally show ?case by simp
qed

lemma total_hands: "sum_list (map (\<lambda>p. length (hand p)) ps) = size (mset (all_hands ps))"
  by (simp add: all_hands_def length_concat comp_def)

lemma ceilDiv_5: "ceilDiv a 5 = nat \<lceil>real a / 5\<rceil>"
proof -
  have "\<lceil>real a / 5\<rceil> = \<lceil>real_of_int (int a) / real_of_int 5\<rceil>" by simp
  also have "\<dots> = - (- int a div 5)" by (rule ceiling_divide_eq_div)
  finally have "nat \<lceil>real a / 5\<rceil> = nat (- (- int a div 5))" by simp
  also have "\<dots> = (a + 4) div 5" by linarith
  finally show ?thesis by (simp add: ceilDiv_def)
qed

lemma numDecks_ceiling: "1 \<le> n \<Longrightarrow> max 1 (ceilDiv n 5) = nat \<lceil>real n / 5\<rceil>"
proof -
  assume "1 \<le> n"
  then have "1 \<le> (n + 4) div 5" by linarith
  then show ?thesis unfolding ceilDiv_5 [symmetric] by (simp add: ceilDiv_def)
qed

lemma findIndex_id_map:
  "findIndex (\<lambda>p. id_player p = h) (map (\<lambda>p. p\<lparr>hand := []\<rparr>) ps) =
   findIndex (\<lambda>p. id_player p = h) ps"
  by (simp add: findIndex_map)

lemma findIndex_ids_cong:
  "map id_player ps = map id_player qs \<Longrightarrow>
   findIndex (\<lambda>p. id_player p = h) ps = findIndex (\<lambda>p. id_player p = h) qs"
proof -
  assume "map id_player ps = map id_player qs"
  then have "findIndex (\<lambda>x. x = h) (map id_player ps) = findIndex (\<lambda>x. x = h) (map id_player qs)"
    by simp
  then show ?thesis by (simp only: findIndex_map)
qed

lemma dealHands_Some:
  assumes "ps \<noteq> []"
  shows "dealHands ps h rnd =
     Some (deal_list
       (((case findIndex (\<lambda>p. id_player p = h) ps of None \<Rightarrow> 0 | Some i \<Rightarrow> i) + 1) mod length ps)
       0 (rev (createDeck (nat \<lceil>real (length ps) / 5\<rceil>) rnd)) ps)"
proof -
  have n: "1 \<le> length ps" using assms by (cases ps) simp_all
  let ?d = "case findIndex (\<lambda>p. id_player p = h) ps of None \<Rightarrow> 0 | Some i \<Rightarrow> i"
  have d: "max 0 (js_index (findIndex (\<lambda>p. id_player p = h) ps)) = int ?d"
    by (simp add: js_index_def split: option.splits)
  have s: "nat ((int ?d + 1) mod int (length ps)) = (?d + 1) mod length ps"
    by (simp add: nat_mod_distrib nat_add_distrib)
  show ?thesis
    unfolding dealHands_def Let_def d s numDecks_ceiling [OF n] deal_loop_list
    using assms by simp
qed

lemma game_start_Some:
  assumes "\<not> started g" "2 \<le> length (players g)"
  shows "game_start g (hostId g) rnd = Some (g\<lparr>
     players := deal_list
       (((case findIndex (\<lambda>p. id_player p = hostId g) (players g) of None \<Rightarrow> 0 | Some i \<Rightarrow> i) + 1)
          mod length (players g))
       0 (rev (createDeck (nat \<lceil>real (length (players g)) / 5\<rceil>) rnd))
       (map (\<lambda>p. p\<lparr>hand := []\<rparr>) (players g)),
     started := True,
     currentTurnIndex :=
       nat ((js_index (findIndex (\<lambda>p. id_player p = hostId g) (players g)) + 1)
              mod int (length (players g))),
     currentRequiredRank := Rank_A,
     pileFaceDown := [],
     lastPlay := None,
     bsWindowUntil := None,
     peanutButterEligiblePlayerId := None,
     hasNextPlayerPlayedAfterLiar := Some False\<rparr>)"
proof -
  let ?init = "map (\<lambda>p. p\<lparr>hand := []\<rparr>) (players g)"
  let ?s = "((case findIndex (\<lambda>p. id_player p = hostId g) (players g) of None \<Rightarrow> 0 | Some i \<Rightarrow> i) + 1)
          mod length (players g)"
  let ?dealt = "deal_list ?s 0 (rev (createDeck (nat \<lceil>real (length (players g)) / 5\<rceil>) rnd)) ?init"
  have "players g \<noteq> []" using assms(2) by auto
  then have ne: "?init \<noteq> []" by simp
  have dh: "dealHands ?init (hostId g) rnd = Some ?dealt"
    unfolding dealHands_Some [OF ne] findIndex_id_map by simp
  have "map id_player ?dealt = map id_player (players g)"
    by (simp add: deal_list_ids comp_def)
  then have fi: "findIndex (\<lambda>p. id_player p = hostId g) ?dealt =
            findIndex (\<lambda>p. id_player p = hostId g) (players g)"
    by (rule findIndex_ids_cong)
  have len: "length ?dealt = length (players g)" by simp
  have "game_start g (hostId g) rnd =
     (case dealHands ?init (hostId g) rnd of
               None \<Rightarrow> None
             | Some ps \<Rightarrow>
                 let dealerIndex = js_index (findIndex (\<lambda>p. id_player p = hostId g) ps)
                 in Some (g\<lparr>players := ps,
                           started := True,
                           currentTurnIndex := nat ((dealerIndex + 1) mod int (length ps)),
                           currentRequiredRank := Rank_A,
                           pileFaceDown := [],
                           lastPlay := None,
                           bsWindowUntil := None,
                           peanutButterEligiblePlayerId := None,
                           hasNextPlayerPlayedAfterLiar := Some False\<rparr>))"
    using assms by (simp add: game_start_def)
  also have "\<dots> = Some (g\<lparr>players := ?dealt,
                           started := True,
                           currentTurnIndex :=
                             nat ((js_index (findIndex (\<lambda>p. id_player p = hostId g) (players g)) + 1)
                                mod int (length (players g))),
                           currentRequiredRank := Rank_A,
                           pileFaceDown := [],
                           lastPlay := None,
                           bsWindowUntil := None,
                           peanutButterEligiblePlayerId := None,
                           hasNextPlayerPlayedAfterLiar := Some False\<rparr>)"
    unfolding dh option.case Let_def fi len ..
  finally show ?thesis .
qed

lemma lobby3_eq:
  "lobby3 = \<lparr>id_game = ''g1'',
      players = [\<lparr>id_player = ''c'', name = ''Carol'', socketId = ''sc'', hand = [], isHost = True\<rparr>,
                 \<lparr>id_player = ''a'', name = ''Alice'', socketId = ''sa'', hand = [], isHost = False\<rparr>,
                 \<lparr>id_player = ''b'', name = ''Bob'', socketId = ''sb'', hand = [], isHost = False\<rparr>],
      hostId = ''c'', started = False, currentTurnIndex = 0, currentRequiredRank = Rank_A,
      pileFaceDown = [], lastPlay = None, bsWindowUntil = None,
      peanutButterEligiblePlayerId = None, hasNextPlayerPlayedAfterLiar = None\<rparr>"
  by (simp add: lobby3_def session_create_def session_join_def after_def)

section \<open>Dealing (C8)\<close>

text \<open>
  C8.  Starting a game with \<open>n \<ge> 2\<close> players (a session holds at most ten) builds a
  deck of \<open>52 * ceil(n/5)\<close> cards in which every rank-suit pair occurs exactly
  \<open>ceil(n/5)\<close> times, whatever the shuffle draws.  The deck is dealt whole, one card at
  a time: the \<open>k\<close>-th card popped, \<open>deck ! (length deck - 1 - k)\<close>, goes to the player
  at position \<open>(d + 1 + k) mod n\<close>, where \<open>d\<close> is the dealer's position (position 0
  when the host id names no player).  The hands together are the deck, and any two
  hands differ in size by at most one.
\<close>

theorem start_deals_round_robin:
  assumes "\<not> started g" and "hostId g = by"
    and "2 \<le> length (players g)"
    and "d = (case findIndex (\<lambda>p. id_player p = hostId g) (players g) of
                None \<Rightarrow> 0 | Some i \<Rightarrow> i)"
    and "n = length (players g)"
    and "deck = createDeck (nat \<lceil>real n / 5\<rceil>) rnd"
  shows "\<exists>g'. game_start g by rnd = Some g' \<and>
           length deck = 52 * nat \<lceil>real n / 5\<rceil> \<and>
           (\<forall>c. count (mset deck) c = nat \<lceil>real n / 5\<rceil>) \<and>
           length (players g') = n \<and>
           (\<forall>p<n. hand (players g' ! p) =
              map (\<lambda>k. deck ! (length deck - 1 - k))
                (filter (\<lambda>k. (d + 1 + k) mod n = p) [0..<length deck])) \<and>
           mset (all_hands (players g')) = mset deck \<and>
           (\<forall>p<n. \<forall>q<n.
              length (hand (players g' ! p)) \<le> length (hand (players g' ! q)) + 1)"
proof -
  let ?init = "map (\<lambda>p. p\<lparr>hand := []\<rparr>) (players g)"
  let ?s = "(d + 1) mod n"
  let ?dealt = "deal_list ?s 0 (rev deck) ?init"
  obtain g' where g': "game_start g by rnd = Some g'" and ps: "players g' = ?dealt"
    using game_start_Some [OF assms(1,3), of rnd] assms(2,4,5,6) by simp
  have n0: "0 < n" using assms(3,5) by linarith
  have len0: "length ?init = n" using assms(5) by simp
  have "players g \<noteq> []" using assms(3) by auto
  then have ne: "?init \<noteq> []" by simp
  have hand_p: "hand (players g' ! p) =
      map (\<lambda>k. deck ! (length deck - 1 - k))
        (filter (\<lambda>k. (d + 1 + k) mod n = p) [0..<length deck])" if "p < n" for p
  proof -
    have p0: "p < length ?init" using that len0 by simp
    have e: "hand (?init ! p) = []" using that assms(5) by simp
    have m: "(?s + (0 + k)) mod n = (d + 1 + k) mod n" for k
      by (simp add: mod_add_left_eq)
    have "hand (?dealt ! p) = hand (?init ! p) @
        map (\<lambda>k. rev deck ! k)
          (filter (\<lambda>k. (?s + (0 + k)) mod length ?init = p) [0..<length (rev deck)])"
      using p0 by (rule deal_list_hand)
    also have "\<dots> = map (\<lambda>k. rev deck ! k)
          (filter (\<lambda>k. (d + 1 + k) mod n = p) [0..<length deck])"
      unfolding e len0 m by simp
    also have "\<dots> = map (\<lambda>k. deck ! (length deck - 1 - k))
          (filter (\<lambda>k. (d + 1 + k) mod n = p) [0..<length deck])"
      by (rule map_cong) (auto simp: rev_nth)
    finally show ?thesis by (simp only: ps)
  qed
  have size_p: "length (hand (players g' ! p)) = length deck div n \<or>
                length (hand (players g' ! p)) = length deck div n + 1" if "p < n" for p
    using deal_share [OF that, of "d + 1" "length deck"] hand_p [OF that] by simp
  have bal: "length (hand (players g' ! p)) \<le> length (hand (players g' ! q)) + 1"
    if "p < n" "q < n" for p q
    using size_p [OF that(1)] size_p [OF that(2)] by linarith
  have e0: "all_hands ?init = []"
    by (simp add: all_hands_def comp_def)
  have all: "mset (all_hands (players g')) = mset deck"
    unfolding ps deal_list_mset [OF ne] e0 by simp
  show ?thesis
    using g' ps len0 hand_p bal all
    by (simp add: assms(6) createDeck_length createDeck_count)
qed

theorem start_deals_round_robin_witness:
  "\<not> started lobby3 \<and> hostId lobby3 = ''c'' \<and> 2 \<le> length (players lobby3) \<and>
   (\<exists>g'. game_start lobby3 ''c'' (\<lambda>i. i) = Some g' \<and>
      length (players g') = 3 \<and>
      (\<forall>p<3. \<forall>q<3. length (hand (players g' ! p)) \<le> length (hand (players g' ! q)) + 1))"
proof -
  note l = lobby3_eq
  have h: "\<not> started lobby3" "hostId lobby3 = ''c''" "2 \<le> length (players lobby3)"
    by (simp_all add: l)
  from start_deals_round_robin [OF h refl refl refl, of "\<lambda>i. i"] h
  show ?thesis by (auto simp: l)
qed

section \<open>Facts about the handlers\<close>

lemma mset_remove_nth:
  assumes "i < length xs"
  shows "mset (remove_nth i xs) = mset xs - {#xs ! i#}"
proof -
  have "mset xs = mset (take i xs @ xs ! i # drop (Suc i) xs)"
    using assms by (simp only: id_take_nth_drop [symmetric])
  then show ?thesis by (simp add: remove_nth_def)
qed

lemma length_remove_nth: "i < length xs \<Longrightarrow> length (remove_nth i xs) = length xs - 1"
  by (simp add: remove_nth_def)

lemma indexOf_Some: "indexOf c xs = Some i \<Longrightarrow> i < length xs \<and> xs ! i = c"
  unfolding indexOf_def by (drule findIndex_Some) simp

lemma indexOf_None: "indexOf c xs = None \<longleftrightarrow> c \<notin> set xs"
  unfolding indexOf_def by (auto simp: findIndex_None)

lemma splice_indexOf_mset:
  "c \<in> set h \<Longrightarrow> mset (splice_indexOf c h) = mset h - {#c#}"
  unfolding splice_indexOf_def
  by (auto simp: indexOf_None mset_remove_nth dest: indexOf_Some split: option.splits)

lemma play_loop_pile: "snd (play_loop cs h pile) = pile @ cs"
  by (induction cs arbitrary: h pile) simp_all

lemma play_loop_hand:
  "mset cs \<subseteq># mset h \<Longrightarrow> mset (fst (play_loop cs h pile)) = mset h - mset cs"
proof (induction cs arbitrary: h pile)
  case Nil
  then show ?case by simp
next
  case (Cons c cs)
  from Cons.prems have c: "c \<in> set h"
    by (metis insert_subset_eq_iff mset.simps(2) set_mset_mset mset_subset_eqD union_single_eq_member)
  have sub: "mset cs \<subseteq># mset (splice_indexOf c h)"
    using Cons.prems c by (simp add: splice_indexOf_mset insert_subset_eq_iff)
  show ?case
    using Cons.IH [OF sub] by (simp add: splice_indexOf_mset [OF c])
qed

lemma not_owned_iff: "not_owned cards h \<longleftrightarrow> \<not> set cards \<subseteq> set h"
  by (auto simp: not_owned_def list_ex_iff indexOf_None)

lemma outside_window_iff:
  "\<not> outside_window w now \<longleftrightarrow> (\<exists>t. w = Some t \<and> t \<noteq> 0 \<and> now \<le> t)"
  by (auto simp: outside_window_def split: option.splits)

lemma game_bs_eq:
  assumes "started g" and "lastPlay g = Some lp"
    and "bsWindowUntil g = Some t" and "t \<noteq> 0" and "now \<le> t"
    and "findIndex (\<lambda>p. name p = username lp) (players g) = Some l"
    and "findIndex (\<lambda>p. id_player p = by) (players g) = Some c"
  shows "game_bs g by now =
     Some (g\<lparr>players := give_pile g
                 (if list_ex (\<lambda>x. rank_of x \<noteq> claimedRank lp)
                       (slice_neg (count_play lp) (pileFaceDown g))
                  then l else c),
             pileFaceDown := [],
             bsWindowUntil := None,
             lastPlay := None,
             peanutButterEligiblePlayerId := None,
             hasNextPlayerPlayedAfterLiar := Some False\<rparr>)"
  using assms by (simp add: game_bs_def outside_window_def startsWith_rank Let_def)

lemma game_bs_SomeD:
  assumes "game_bs g by now = Some g'"
  shows "started g \<and>
     (\<exists>lp t l c. lastPlay g = Some lp \<and> bsWindowUntil g = Some t \<and> t \<noteq> 0 \<and> now \<le> t \<and>
        findIndex (\<lambda>p. name p = username lp) (players g) = Some l \<and>
        findIndex (\<lambda>p. id_player p = by) (players g) = Some c)"
  using assms
  by (auto simp: game_bs_def outside_window_def Let_def split: if_splits option.splits)

lemma game_peanutButter_eq:
  assumes "started g" and "peanutButterEligiblePlayerId g = Some by" and "by \<noteq> []"
    and "hasNextPlayerPlayedAfterLiar g = Some True"
    and "lastPlay g = Some lp"
    and "findIndex (\<lambda>p. name p = username lp) (players g) = Some l"
  shows "game_peanutButter g by =
     Some (g\<lparr>players := give_pile g l,
             pileFaceDown := [],
             lastPlay := None,
             peanutButterEligiblePlayerId := None,
             hasNextPlayerPlayedAfterLiar := Some False\<rparr>)"
  using assms by (simp add: game_peanutButter_def truthy_id_def truthy_flag_def)

lemma game_peanutButter_SomeD:
  assumes "game_peanutButter g by = Some g'"
  shows "started g \<and> peanutButterEligiblePlayerId g = Some by \<and> by \<noteq> [] \<and>
     hasNextPlayerPlayedAfterLiar g = Some True \<and>
     (\<exists>lp l. lastPlay g = Some lp \<and>
        findIndex (\<lambda>p. name p = username lp) (players g) = Some l)"
  using assms
  by (auto simp: game_peanutButter_def truthy_id_def truthy_flag_def
           split: if_splits option.splits)

lemma game_play_SomeD:
  assumes "game_play g by cards claimed now = Some g'"
  shows "started g \<and> currentTurnIndex g < length (players g) \<and>
     id_player (players g ! currentTurnIndex g) = by \<and>
     1 \<le> length cards \<and> length cards \<le> getMaxSelectable (players g) \<and>
     (\<exists>k. findIndex (\<lambda>p. id_player p = by) (players g) = Some k \<and>
        set cards \<subseteq> set (hand (players g ! k)) \<and>
        g' = g\<lparr>players := (players g)[k := (players g ! k)
                     \<lparr>hand := fst (play_loop cards (hand (players g ! k)) (pileFaceDown g))\<rparr>],
                pileFaceDown := pileFaceDown g @ cards,
                lastPlay := Some \<lparr>username = name (players g ! k),
                                  count_play = length cards,
                                  claimedRank = claimed\<rparr>,
                bsWindowUntil := Some (now + 5000),
                hasNextPlayerPlayedAfterLiar :=
                  Some (truthy_id (peanutButterEligiblePlayerId g) \<and>
                        peanutButterEligiblePlayerId g \<noteq> Some (id_player (players g ! k))),
                peanutButterEligiblePlayerId := Some (id_player (players g ! k)),
                currentTurnIndex := (currentTurnIndex g + 1) mod length (players g),
                currentRequiredRank := nextRank (currentRequiredRank g)\<rparr>)"
proof -
  from assms have s: "started g" and t: "currentTurnIndex g < length (players g)"
    and b: "id_player (players g ! currentTurnIndex g) = by"
    by (auto simp: game_play_def split: if_splits)
  from assms s t b obtain k where k: "findIndex (\<lambda>p. id_player p = by) (players g) = Some k"
    by (auto simp: game_play_def split: option.splits)
  from assms s t b k have ne: "cards \<noteq> []"
    and len2: "length cards \<le> getMaxSelectable (players g)"
    and own: "\<not> not_owned cards (hand (players g ! k))"
    by (auto simp: game_play_def Let_def split: if_splits)
  from ne have len1: "1 \<le> length cards" by (cases cards) simp_all
  note len = len1 len2
  obtain h' pile' where pl: "play_loop cards (hand (players g ! k)) (pileFaceDown g) = (h', pile')"
    by (cases "play_loop cards (hand (players g ! k)) (pileFaceDown g)") auto
  have pile': "pile' = pileFaceDown g @ cards"
    using play_loop_pile [of cards "hand (players g ! k)" "pileFaceDown g"] pl by simp
  have h': "h' = fst (play_loop cards (hand (players g ! k)) (pileFaceDown g))"
    using pl by simp
  from assms s t b k ne len own pl have "g' = g\<lparr>players := (players g)[k := (players g ! k)\<lparr>hand := h'\<rparr>],
                pileFaceDown := pile',
                lastPlay := Some \<lparr>username = name (players g ! k),
                                  count_play = length cards,
                                  claimedRank = claimed\<rparr>,
                bsWindowUntil := Some (now + 5000),
                hasNextPlayerPlayedAfterLiar :=
                  Some (truthy_id (peanutButterEligiblePlayerId g) \<and>
                        peanutButterEligiblePlayerId g \<noteq> Some (id_player (players g ! k))),
                peanutButterEligiblePlayerId := Some (id_player (players g ! k)),
                currentTurnIndex := (currentTurnIndex g + 1) mod length (players g),
                currentRequiredRank := nextRank (currentRequiredRank g)\<rparr>"
    by (simp add: game_play_def Let_def)
  with s t b k len own pile' h' show ?thesis
    by (simp add: not_owned_iff)
qed

lemma disconnect_game_SomeD:
  assumes "disconnect_game g sock = Some g'"
  shows "\<exists>idx. findIndex (\<lambda>p. socketId p = sock) (players g) = Some idx \<and>
           length (players g') = length (players g) - 1 \<and>
           map hand (players g') = map hand (remove_nth idx (players g)) \<and>
           map id_player (players g') = map id_player (remove_nth idx (players g)) \<and>
           currentTurnIndex g' = currentTurnIndex g \<and>
           pileFaceDown g' = pileFaceDown g \<and> started g' = started g"
proof -
  from assms obtain idx where i: "findIndex (\<lambda>p. socketId p = sock) (players g) = Some idx"
    by (auto simp: disconnect_game_def split: option.splits)
  then have lt: "idx < length (players g)" by (auto dest: findIndex_Some)
  define rest where "rest = remove_nth idx (players g)"
  have lr: "length rest = length (players g) - 1"
    unfolding rest_def using lt by (rule length_remove_nth)
  have g': "g' = (if id_player (players g ! idx) = hostId g \<and> rest \<noteq> []
                  then g\<lparr>players := (hd rest)\<lparr>isHost := True\<rparr> # tl rest,
                         hostId := id_player (hd rest)\<rparr>
                  else g\<lparr>players := rest\<rparr>)"
    using assms i by (auto simp: disconnect_game_def Let_def rest_def split: if_splits)
  have "length (players g') = length rest \<and> map hand (players g') = map hand rest \<and>
        map id_player (players g') = map id_player rest \<and>
        currentTurnIndex g' = currentTurnIndex g \<and>
        pileFaceDown g' = pileFaceDown g \<and> started g' = started g"
    unfolding g' by (cases rest) simp_all
  with i lr show ?thesis unfolding rest_def by simp
qed

lemma total_cards_alt:
  "total_cards g = length (all_hands (players g)) + length (pileFaceDown g)"
  by (simp add: total_cards_def total_hands)

lemma all_hands_cong: "map hand ps = map hand qs \<Longrightarrow> all_hands ps = all_hands qs"
  by (simp add: all_hands_def)

lemma all_hands_update:
  assumes "k < length ps"
  shows "mset (all_hands (ps[k := (ps ! k)\<lparr>hand := h\<rparr>])) + mset (hand (ps ! k)) =
         mset (all_hands ps) + mset h"
proof -
  have ps: "ps = take k ps @ ps ! k # drop (Suc k) ps"
    using assms by (rule id_take_nth_drop)
  have "ps[k := (ps ! k)\<lparr>hand := h\<rparr>] = take k ps @ (ps ! k)\<lparr>hand := h\<rparr> # drop (Suc k) ps"
    using assms by (rule upd_conv_take_nth_drop)
  then have "mset (all_hands (ps[k := (ps ! k)\<lparr>hand := h\<rparr>])) =
        mset (all_hands (take k ps)) + mset h + mset (all_hands (drop (Suc k) ps))"
    by (simp add: all_hands_def)
  moreover have "mset (all_hands ps) =
        mset (all_hands (take k ps)) + mset (hand (ps ! k)) + mset (all_hands (drop (Suc k) ps))"
    by (subst ps) (simp add: all_hands_def)
  ultimately show ?thesis by simp
qed

lemma all_hands_remove_nth:
  assumes "k < length ps"
  shows "mset (all_hands (remove_nth k ps)) + mset (hand (ps ! k)) = mset (all_hands ps)"
proof -
  have ps: "ps = take k ps @ ps ! k # drop (Suc k) ps"
    using assms by (rule id_take_nth_drop)
  have "mset (all_hands ps) =
        mset (all_hands (take k ps)) + mset (hand (ps ! k)) + mset (all_hands (drop (Suc k) ps))"
    by (subst ps) (simp add: all_hands_def)
  then show ?thesis by (simp add: remove_nth_def all_hands_def)
qed

lemma give_pile_total:
  assumes "k < length (players g)"
  shows "length (all_hands (give_pile g k)) =
         length (all_hands (players g)) + length (pileFaceDown g)"
proof -
  have "size (mset (all_hands (give_pile g k))) =
        size (mset (all_hands (players g)) + mset (pileFaceDown g))"
    unfolding give_pile_def all_hands_push [OF assms] ..
  then show ?thesis by simp
qed

lemma total_cards_bs: "total_cards (after g (game_bs g by now)) = total_cards g"
proof (cases "game_bs g by now")
  case None
  then show ?thesis by (simp add: after_def)
next
  case (Some g')
  from game_bs_SomeD [OF Some] obtain lp t l c where
    h: "started g" "lastPlay g = Some lp" "bsWindowUntil g = Some t" "t \<noteq> 0" "now \<le> t"
       "findIndex (\<lambda>p. name p = username lp) (players g) = Some l"
       "findIndex (\<lambda>p. id_player p = by) (players g) = Some c"
    by blast
  have l: "l < length (players g)" and c: "c < length (players g)"
    using findIndex_Some [OF h(6)] findIndex_Some [OF h(7)] by simp_all
  show ?thesis
    unfolding game_bs_eq [OF h] after_def total_cards_alt
    using l c by (simp add: give_pile_total)
qed

lemma total_cards_peanutButter:
  "total_cards (after g (game_peanutButter g by)) = total_cards g"
proof (cases "game_peanutButter g by")
  case None
  then show ?thesis by (simp add: after_def)
next
  case (Some g')
  from game_peanutButter_SomeD [OF Some] obtain lp l where
    h: "started g" "peanutButterEligiblePlayerId g = Some by" "by \<noteq> []"
       "hasNextPlayerPlayedAfterLiar g = Some True" "lastPlay g = Some lp"
       "findIndex (\<lambda>p. name p = username lp) (players g) = Some l"
    by blast
  have l: "l < length (players g)"
    using findIndex_Some [OF h(6)] by simp
  show ?thesis
    unfolding game_peanutButter_eq [OF h] after_def total_cards_alt
    using l by (simp add: give_pile_total)
qed

lemma total_cards_play:
  assumes "findIndex (\<lambda>p. id_player p = by) (players g) = Some k"
    and "mset cards \<subseteq># mset (hand (players g ! k))"
  shows "total_cards (after g (game_play g by cards claimed now)) = total_cards g"
proof (cases "game_play g by cards claimed now")
  case None
  then show ?thesis by (simp add: after_def)
next
  case (Some g')
  let ?h = "hand (players g ! k)"
  let ?h' = "fst (play_loop cards ?h (pileFaceDown g))"
  from game_play_SomeD [OF Some] assms(1)
  have ps: "players g' = (players g)[k := (players g ! k)\<lparr>hand := ?h'\<rparr>]"
    and pile: "pileFaceDown g' = pileFaceDown g @ cards"
    by auto
  have k: "k < length (players g)" using findIndex_Some [OF assms(1)] by simp
  have h': "mset ?h' = mset ?h - mset cards" using assms(2) by (rule play_loop_hand)
  have "size (mset (all_hands (players g')) + mset ?h) =
        size (mset (all_hands (players g)) + mset ?h')"
    unfolding ps using all_hands_update [OF k, of ?h'] by (simp only:)
  then have a: "length (all_hands (players g')) + length ?h =
        length (all_hands (players g)) + length ?h'"
    by simp
  have "size (mset ?h') = size (mset ?h) - size (mset cards)"
    unfolding h' using assms(2) by (rule size_Diff_submset)
  then have b: "length ?h' = length ?h - length cards" by simp
  have "size (mset cards) \<le> size (mset ?h)"
    using assms(2) by (rule size_mset_mono)
  then have c: "length cards \<le> length ?h" by simp
  from a b c have "length (all_hands (players g')) + length cards =
        length (all_hands (players g))"
    by linarith
  then show ?thesis
    by (simp add: Some after_def total_cards_alt pile)
qed

lemma total_cards_disconnect:
  assumes "findIndex (\<lambda>p. socketId p = sock) (players g) = Some idx"
  shows "total_cards (after g (disconnect_game g sock)) + length (hand (players g ! idx)) =
         total_cards g"
proof -
  have "disconnect_game g sock \<noteq> None"
    using assms by (simp add: disconnect_game_def Let_def)
  then obtain g' where g': "disconnect_game g sock = Some g'" by blast
  from disconnect_game_SomeD [OF g'] assms
  have hs: "map hand (players g') = map hand (remove_nth idx (players g))"
    and pile: "pileFaceDown g' = pileFaceDown g"
    by auto
  have i: "idx < length (players g)" using findIndex_Some [OF assms] by simp
  have "size (mset (all_hands (players g')) + mset (hand (players g ! idx))) =
        size (mset (all_hands (players g)))"
    unfolding all_hands_cong [OF hs] using all_hands_remove_nth [OF i] by (simp only:)
  then show ?thesis
    by (simp add: g' after_def total_cards_alt pile)
qed

lemma total_cards_start:
  assumes "\<not> started g" and "2 \<le> length (players g)"
  shows "total_cards (after g (game_start g (hostId g) rnd)) =
         52 * nat \<lceil>real (length (players g)) / 5\<rceil>"
proof -
  have ne: "map (\<lambda>p. p\<lparr>hand := []\<rparr>) (players g) \<noteq> []" using assms(2) by auto
  have e0: "all_hands (map (\<lambda>p. p\<lparr>hand := []\<rparr>) (players g)) = []"
    by (simp add: all_hands_def comp_def)
  let ?dealt = "deal_list
       (((case findIndex (\<lambda>p. id_player p = hostId g) (players g) of None \<Rightarrow> 0 | Some i \<Rightarrow> i) + 1)
          mod length (players g))
       0 (rev (createDeck (nat \<lceil>real (length (players g)) / 5\<rceil>) rnd))
       (map (\<lambda>p. p\<lparr>hand := []\<rparr>) (players g))"
  have "size (mset (all_hands ?dealt)) =
        size (mset (rev (createDeck (nat \<lceil>real (length (players g)) / 5\<rceil>) rnd)))"
    unfolding deal_list_mset [OF ne] e0 by simp
  then have "length (all_hands ?dealt) = 52 * nat \<lceil>real (length (players g)) / 5\<rceil>"
    by (simp add: createDeck_length)
  then show ?thesis
    by (simp add: game_start_Some [OF assms] after_def total_cards_alt)
qed

section \<open>The started table of three\<close>

lemma table3_eq:
  "table3 =
  \<lparr>id_game = ''g1'',
      players =
        [\<lparr>id_player = ''c'', name = ''Carol'', socketId = ''sc'',
            hand =
              [Card Rank_K Suit_H, Card Rank_Q Suit_D, Card Rank_J Suit_C,
               Card Rank_J Suit_S, Card Rank_10 Suit_H, Card Rank_9 Suit_D,
               Card Rank_8 Suit_C, Card Rank_8 Suit_S, Card Rank_7 Suit_H,
               Card Rank_6 Suit_D, Card Rank_5 Suit_C, Card Rank_5 Suit_S,
               Card Rank_4 Suit_H, Card Rank_3 Suit_D, Card Rank_2 Suit_C,
               Card Rank_2 Suit_S, Card Rank_A Suit_H],
            isHost = True\<rparr>,
         \<lparr>id_player = ''a'', name = ''Alice'', socketId = ''sa'',
            hand =
              [Card Rank_K Suit_C, Card Rank_K Suit_S, Card Rank_Q Suit_H,
               Card Rank_J Suit_D, Card Rank_10 Suit_C, Card Rank_10 Suit_S,
               Card Rank_9 Suit_H, Card Rank_8 Suit_D, Card Rank_7 Suit_C,
               Card Rank_7 Suit_S, Card Rank_6 Suit_H, Card Rank_5 Suit_D,
               Card Rank_4 Suit_C, Card Rank_4 Suit_S, Card Rank_3 Suit_H,
               Card Rank_2 Suit_D, Card Rank_A Suit_C, Card Rank_A Suit_S],
            isHost = False\<rparr>,
         \<lparr>id_player = ''b'', name = ''Bob'', socketId = ''sb'',
            hand =
              [Card Rank_K Suit_D, Card Rank_Q Suit_C, Card Rank_Q Suit_S,
               Card Rank_J Suit_H, Card Rank_10 Suit_D, Card Rank_9 Suit_C,
               Card Rank_9 Suit_S, Card Rank_8 Suit_H, Card Rank_7 Suit_D,
               Card Rank_6 Suit_C, Card Rank_6 Suit_S, Card Rank_5 Suit_H,
               Card Rank_4 Suit_D, Card Rank_3 Suit_C, Card Rank_3 Suit_S,
               Card Rank_2 Suit_H, Card Rank_A Suit_D],
            isHost = False\<rparr>],
      hostId = ''c'', started = True, currentTurnIndex = 1,
      currentRequiredRank = Rank_A, pileFaceDown = [], lastPlay = None,
      bsWindowUntil = None, peanutButterEligiblePlayerId = None,
      hasNextPlayerPlayedAfterLiar = Some False\<rparr>"
  by code_simp

section \<open>Card count (C3)\<close>

text \<open>
  C3, amended.  Right after the deal the hands hold \<open>52 * ceil(n/5)\<close> cards and the
  pile none.  A challenge and a counter-challenge, accepted or not, keep the number of
  cards in the hands and the pile together; so does every play that names no card more
  often than the acting player's hand holds it.  A disconnect takes the departing
  player's hand out of the session: the total drops by the size of that hand.
\<close>

theorem total_cards_amended:
  "(\<not> started g0 \<and> 2 \<le> length (players g0) \<longrightarrow>
      total_cards (after g0 (game_start g0 (hostId g0) rnd)) =
        52 * nat \<lceil>real (length (players g0)) / 5\<rceil>) \<and>
   total_cards (after g (game_bs g by now)) = total_cards g \<and>
   total_cards (after g (game_peanutButter g by)) = total_cards g \<and>
   (\<forall>k. findIndex (\<lambda>p. id_player p = by) (players g) = Some k \<and>
        mset cards \<subseteq># mset (hand (players g ! k)) \<longrightarrow>
      total_cards (after g (game_play g by cards claimed now)) = total_cards g) \<and>
   (\<forall>idx. findIndex (\<lambda>p. socketId p = sock) (players g) = Some idx \<longrightarrow>
      total_cards (after g (disconnect_game g sock)) + length (hand (players g ! idx)) =
        total_cards g)"
  using total_cards_start [of g0 rnd] total_cards_bs [of g _ now]
    total_cards_peanutButter [of g] total_cards_play [of _ g _ cards claimed now]
    total_cards_disconnect [of sock g]
  by blast

theorem total_cards_amended_witness:
  "total_cards (after lobby3 (game_start lobby3 (hostId lobby3) (\<lambda>i. i))) = 52 \<and>
   game_play table3 ''a'' [Card Rank_5 Suit_D] Rank_5 1000 \<noteq> None \<and>
   total_cards (after table3 (game_play table3 ''a'' [Card Rank_5 Suit_D] Rank_5 1000)) =
     total_cards table3 \<and>
   total_cards (after table3 (disconnect_game table3 ''sb'')) + 17 = total_cards table3"
proof -
  have s: "\<not> started lobby3 \<and> 2 \<le> length (players lobby3)"
    by (simp add: lobby3_eq)
  have n: "nat \<lceil>real (length (players lobby3)) / 5\<rceil> = 1"
    by (simp add: lobby3_eq)
  have k: "findIndex (\<lambda>p. id_player p = ''a'') (players table3) = Some 1 \<and>
           mset [Card Rank_5 Suit_D] \<subseteq># mset (hand (players table3 ! 1))"
    by (simp add: table3_eq)
  have i: "findIndex (\<lambda>p. socketId p = ''sb'') (players table3) = Some 2"
    by (simp add: table3_eq)
  have l: "length (hand (players table3 ! 2)) = 17"
    by (simp add: table3_eq)
  have p: "game_play table3 ''a'' [Card Rank_5 Suit_D] Rank_5 1000 \<noteq> None"
    by code_simp
  from total_cards_amended [of lobby3 "\<lambda>i. i" table3 "''a''" 1000 "[Card Rank_5 Suit_D]" Rank_5 "''sb''"]
    s n k i l p
  show ?thesis by (metis mult.right_neutral)
qed

text \<open>
  The claim as stated fails at a disconnect: Bob leaves the started table of three and
  his 17 cards leave with him.
\<close>

theorem total_cards_disconnect_counterexample:
  "started table3 \<and> total_cards table3 = 52 \<and>
   total_cards (after table3 (disconnect_game table3 ''sb'')) = 35"
  by code_simp

section \<open>The concrete sessions, evaluated\<close>

lemma after_alice_eq:
  "after_alice =
   \<lparr>id_game = ''g1'',
       players =
         [\<lparr>id_player = ''c'', name = ''Carol'', socketId = ''sc'',
             hand =
               [Card Rank_K Suit_H, Card Rank_Q Suit_D, Card Rank_J Suit_C,
                Card Rank_J Suit_S, Card Rank_10 Suit_H, Card Rank_9 Suit_D,
                Card Rank_8 Suit_C, Card Rank_8 Suit_S, Card Rank_7 Suit_H,
                Card Rank_6 Suit_D, Card Rank_5 Suit_C, Card Rank_5 Suit_S,
                Card Rank_4 Suit_H, Card Rank_3 Suit_D, Card Rank_2 Suit_C,
                Card Rank_2 Suit_S, Card Rank_A Suit_H],
             isHost = True\<rparr>,
          \<lparr>id_player = ''a'', name = ''Alice'', socketId = ''sa'',
             hand =
               [Card Rank_K Suit_C, Card Rank_K Suit_S, Card Rank_Q Suit_H,
                Card Rank_J Suit_D, Card Rank_10 Suit_C, Card Rank_10 Suit_S,
                Card Rank_9 Suit_H, Card Rank_8 Suit_D, Card Rank_7 Suit_C,
                Card Rank_7 Suit_S, Card Rank_6 Suit_H, Card Rank_4 Suit_C,
                Card Rank_4 Suit_S, Card Rank_3 Suit_H, Card Rank_2 Suit_D,
                Card Rank_A Suit_C, Card Rank_A Suit_S],
             isHost = False\<rparr>,
          \<lparr>id_player = ''b'', name = ''Bob'', socketId = ''sb'',
             hand =
               [Card Rank_K Suit_D, Card Rank_Q Suit_C, Card Rank_Q Suit_S,
                Card Rank_J Suit_H, Card Rank_10 Suit_D, Card Rank_9 Suit_C,
                Card Rank_9 Suit_S, Card Rank_8 Suit_H, Card Rank_7 Suit_D,
                Card Rank_6 Suit_C, Card Rank_6 Suit_S, Card Rank_5 Suit_H,
                Card Rank_4 Suit_D, Card Rank_3 Suit_C, Card Rank_3 Suit_S,
                Card Rank_2 Suit_H, Card Rank_A Suit_D],
             isHost = False\<rparr>],
       hostId = ''c'', started = True, currentTurnIndex = 2,
       currentRequiredRank = Rank_2, pileFaceDown = [Card Rank_5 Suit_D],
       lastPlay =
         Some \<lparr>username = ''Alice'', count_play = 1, claimedRank = Rank_5\<rparr>,
       bsWindowUntil = Some 6000, peanutButterEligiblePlayerId = Some ''a'',
       hasNextPlayerPlayedAfterLiar = Some False\<rparr>"
  unfolding after_alice_def table3_eq by code_simp

lemma after_bob_eq:
  "after_bob =
   \<lparr>id_game = ''g1'',
       players =
         [\<lparr>id_player = ''c'', name = ''Carol'', socketId = ''sc'',
             hand =
               [Card Rank_K Suit_H, Card Rank_Q Suit_D, Card Rank_J Suit_C,
                Card Rank_J Suit_S, Card Rank_10 Suit_H, Card Rank_9 Suit_D,
                Card Rank_8 Suit_C, Card Rank_8 Suit_S, Card Rank_7 Suit_H,
                Card Rank_6 Suit_D, Card Rank_5 Suit_C, Card Rank_5 Suit_S,
                Card Rank_4 Suit_H, Card Rank_3 Suit_D, Card Rank_2 Suit_C,
                Card Rank_2 Suit_S, Card Rank_A Suit_H],
             isHost = True\<rparr>,
          \<lparr>id_player = ''a'', name = ''Alice'', socketId = ''sa'',
             hand =
               [Card Rank_K Suit_C, Card Rank_K Suit_S, Card Rank_Q Suit_H,
                Card Rank_J Suit_D, Card Rank_10 Suit_C, Card Rank_10 Suit_S,
                Card Rank_9 Suit_H, Card Rank_8 Suit_D, Card Rank_7 Suit_C,
                Card Rank_7 Suit_S, Card Rank_6 Suit_H, Card Rank_4 Suit_C,
                Card Rank_4 Suit_S, Card Rank_3 Suit_H, Card Rank_2 Suit_D,
                Card Rank_A Suit_C, Card Rank_A Suit_S],
             isHost = False\<rparr>,
          \<lparr>id_player = ''b'', name = ''Bob'', socketId = ''sb'',
             hand =
               [Card Rank_K Suit_D, Card Rank_Q Suit_C, Card Rank_Q Suit_S,
                Card Rank_J Suit_H, Card Rank_10 Suit_D, Card Rank_9 Suit_C,
                Card Rank_9 Suit_S, Card Rank_8 Suit_H, Card Rank_7 Suit_D,
                Card Rank_6 Suit_S, Card Rank_5 Suit_H, Card Rank_4 Suit_D,
                Card Rank_3 Suit_C, Card Rank_3 Suit_S, Card Rank_2 Suit_H,
                Card Rank_A Suit_D],
             isHost = False\<rparr>],
       hostId = ''c'', started = True, currentTurnIndex = 0,
       currentRequiredRank = Rank_3,
       pileFaceDown = [Card Rank_5 Suit_D, Card Rank_6 Suit_C],
       lastPlay =
         Some \<lparr>username = ''Bob'', count_play = 1, claimedRank = Rank_6\<rparr>,
       bsWindowUntil = Some 14000, peanutButterEligiblePlayerId = Some ''b'',
       hasNextPlayerPlayedAfterLiar = Some True\<rparr>"
  unfolding after_bob_def after_alice_eq by code_simp

lemma double_five_eq:
  "double_five =
   \<lparr>id_game = ''g1'',
       players =
         [\<lparr>id_player = ''c'', name = ''Carol'', socketId = ''sc'',
             hand =
               [Card Rank_K Suit_H, Card Rank_Q Suit_D, Card Rank_J Suit_C,
                Card Rank_J Suit_S, Card Rank_10 Suit_H, Card Rank_9 Suit_D,
                Card Rank_8 Suit_C, Card Rank_8 Suit_S, Card Rank_7 Suit_H,
                Card Rank_6 Suit_D, Card Rank_5 Suit_C, Card Rank_5 Suit_S,
                Card Rank_4 Suit_H, Card Rank_3 Suit_D, Card Rank_2 Suit_C,
                Card Rank_2 Suit_S, Card Rank_A Suit_H],
             isHost = True\<rparr>,
          \<lparr>id_player = ''a'', name = ''Alice'', socketId = ''sa'',
             hand =
               [Card Rank_K Suit_C, Card Rank_K Suit_S, Card Rank_Q Suit_H,
                Card Rank_J Suit_D, Card Rank_10 Suit_C, Card Rank_10 Suit_S,
                Card Rank_9 Suit_H, Card Rank_8 Suit_D, Card Rank_7 Suit_C,
                Card Rank_7 Suit_S, Card Rank_6 Suit_H, Card Rank_4 Suit_C,
                Card Rank_4 Suit_S, Card Rank_3 Suit_H, Card Rank_2 Suit_D,
                Card Rank_A Suit_C],
             isHost = False\<rparr>,
          \<lparr>id_player = ''b'', name = ''Bob'', socketId = ''sb'',
             hand =
               [Card Rank_K Suit_D, Card Rank_Q Suit_C, Card Rank_Q Suit_S,
                Card Rank_J Suit_H, Card Rank_10 Suit_D, Card Rank_9 Suit_C,
                Card Rank_9 Suit_S, Card Rank_8 Suit_H, Card Rank_7 Suit_D,
                Card Rank_6 Suit_C, Card Rank_6 Suit_S, Card Rank_5 Suit_H,
                Card Rank_4 Suit_D, Card Rank_3 Suit_C, Card Rank_3 Suit_S,
                Card Rank_2 Suit_H, Card Rank_A Suit_D],
             isHost = False\<rparr>],
       hostId = ''c'', started = True, currentTurnIndex = 2,
       currentRequiredRank = Rank_2,
       pileFaceDown = [Card Rank_5 Suit_D, Card Rank_5 Suit_D],
       lastPlay =
         Some \<lparr>username = ''Alice'', count_play = 2, claimedRank = Rank_5\<rparr>,
       bsWindowUntil = Some 6000, peanutButterEligiblePlayerId = Some ''a'',
       hasNextPlayerPlayedAfterLiar = Some False\<rparr>"
  unfolding double_five_def table3_eq by code_simp

lemma carol_left_eq:
  "carol_left =
   \<lparr>id_game = ''g1'',
       players =
         [\<lparr>id_player = ''a'', name = ''Alice'', socketId = ''sa'',
             hand =
               [Card Rank_K Suit_C, Card Rank_K Suit_S, Card Rank_Q Suit_H,
                Card Rank_J Suit_D, Card Rank_10 Suit_C, Card Rank_10 Suit_S,
                Card Rank_9 Suit_H, Card Rank_8 Suit_D, Card Rank_7 Suit_C,
                Card Rank_7 Suit_S, Card Rank_6 Suit_H, Card Rank_4 Suit_C,
                Card Rank_4 Suit_S, Card Rank_3 Suit_H, Card Rank_2 Suit_D,
                Card Rank_A Suit_C, Card Rank_A Suit_S],
             isHost = True\<rparr>,
          \<lparr>id_player = ''b'', name = ''Bob'', socketId = ''sb'',
             hand =
               [Card Rank_K Suit_D, Card Rank_Q Suit_C, Card Rank_Q Suit_S,
                Card Rank_J Suit_H, Card Rank_10 Suit_D, Card Rank_9 Suit_C,
                Card Rank_9 Suit_S, Card Rank_8 Suit_H, Card Rank_7 Suit_D,
                Card Rank_6 Suit_C, Card Rank_6 Suit_S, Card Rank_5 Suit_H,
                Card Rank_4 Suit_D, Card Rank_3 Suit_C, Card Rank_3 Suit_S,
                Card Rank_2 Suit_H, Card Rank_A Suit_D],
             isHost = False\<rparr>],
       hostId = ''a'', started = True, currentTurnIndex = 2,
       currentRequiredRank = Rank_2, pileFaceDown = [Card Rank_5 Suit_D],
       lastPlay =
         Some \<lparr>username = ''Alice'', count_play = 1, claimedRank = Rank_5\<rparr>,
       bsWindowUntil = Some 6000, peanutButterEligiblePlayerId = Some ''a'',
       hasNextPlayerPlayedAfterLiar = Some False\<rparr>"
  unfolding carol_left_def after_alice_eq by code_simp

lemma alice_left_eq:
  "alice_left =
   \<lparr>id_game = ''g1'',
       players =
         [\<lparr>id_player = ''c'', name = ''Carol'', socketId = ''sc'',
             hand =
               [Card Rank_K Suit_H, Card Rank_Q Suit_D, Card Rank_J Suit_C,
                Card Rank_J Suit_S, Card Rank_10 Suit_H, Card Rank_9 Suit_D,
                Card Rank_8 Suit_C, Card Rank_8 Suit_S, Card Rank_7 Suit_H,
                Card Rank_6 Suit_D, Card Rank_5 Suit_C, Card Rank_5 Suit_S,
                Card Rank_4 Suit_H, Card Rank_3 Suit_D, Card Rank_2 Suit_C,
                Card Rank_2 Suit_S, Card Rank_A Suit_H],
             isHost = True\<rparr>,
          \<lparr>id_player = ''b'', name = ''Bob'', socketId = ''sb'',
             hand =
               [Card Rank_K Suit_D, Card Rank_Q Suit_C, Card Rank_Q Suit_S,
                Card Rank_J Suit_H, Card Rank_10 Suit_D, Card Rank_9 Suit_C,
                Card Rank_9 Suit_S, Card Rank_8 Suit_H, Card Rank_7 Suit_D,
                Card Rank_6 Suit_C, Card Rank_6 Suit_S, Card Rank_5 Suit_H,
                Card Rank_4 Suit_D, Card Rank_3 Suit_C, Card Rank_3 Suit_S,
                Card Rank_2 Suit_H, Card Rank_A Suit_D],
             isHost = False\<rparr>],
       hostId = ''c'', started = True, currentTurnIndex = 2,
       currentRequiredRank = Rank_2, pileFaceDown = [Card Rank_5 Suit_D],
       lastPlay =
         Some \<lparr>username = ''Alice'', count_play = 1, claimedRank = Rank_5\<rparr>,
       bsWindowUntil = Some 6000, peanutButterEligiblePlayerId = Some ''a'',
       hasNextPlayerPlayedAfterLiar = Some False\<rparr>"
  unfolding alice_left_def after_alice_eq by code_simp

lemma lobby4_eq:
  "lobby4 =
   \<lparr>id_game = ''g1'',
       players =
         [\<lparr>id_player = ''c'', name = ''Carol'', socketId = ''sc'', hand = [],
             isHost = True\<rparr>,
          \<lparr>id_player = ''a'', name = ''Alice'', socketId = ''sa'', hand = [],
             isHost = False\<rparr>,
          \<lparr>id_player = ''b'', name = ''Bob'', socketId = ''sb'', hand = [],
             isHost = False\<rparr>,
          \<lparr>id_player = ''d'', name = ''Dave'', socketId = ''sd'', hand = [],
             isHost = False\<rparr>],
       hostId = ''c'', started = False, currentTurnIndex = 0,
       currentRequiredRank = Rank_A, pileFaceDown = [], lastPlay = None,
       bsWindowUntil = None, peanutButterEligiblePlayerId = None,
       hasNextPlayerPlayedAfterLiar = None\<rparr>"
  by (simp add: lobby4_def lobby3_eq session_join_def after_def)

lemma hostless_eq:
  "hostless =
   \<lparr>id_game = ''g1'',
       players =
         [\<lparr>id_player = ''a'', name = ''Alice'', socketId = ''sa'', hand = [],
             isHost = False\<rparr>,
          \<lparr>id_player = ''b'', name = ''Bob'', socketId = ''sb'', hand = [],
             isHost = False\<rparr>],
       hostId = ''c'', started = False, currentTurnIndex = 0,
       currentRequiredRank = Rank_A, pileFaceDown = [], lastPlay = None,
       bsWindowUntil = None, peanutButterEligiblePlayerId = None,
       hasNextPlayerPlayedAfterLiar = None\<rparr>"
  by (simp add: hostless_def lobby3_eq session_kick_def after_def)

lemma two_sams_lobby_eq:
  "two_sams_lobby =
   \<lparr>id_game = ''g2'',
       players =
         [\<lparr>id_player = ''s1'', name = ''Sam'', socketId = ''t1'', hand = [],
             isHost = True\<rparr>,
          \<lparr>id_player = ''b'', name = ''Bob'', socketId = ''tb'', hand = [],
             isHost = False\<rparr>,
          \<lparr>id_player = ''s2'', name = ''Sam'', socketId = ''t2'', hand = [],
             isHost = False\<rparr>],
       hostId = ''s1'', started = False, currentTurnIndex = 0,
       currentRequiredRank = Rank_A, pileFaceDown = [], lastPlay = None,
       bsWindowUntil = None, peanutButterEligiblePlayerId = None,
       hasNextPlayerPlayedAfterLiar = None\<rparr>"
  by (simp add: two_sams_lobby_def session_create_def session_join_def after_def)

lemma two_sams_table_eq:
  "two_sams_table =
   \<lparr>id_game = ''g2'',
       players =
         [\<lparr>id_player = ''s1'', name = ''Sam'', socketId = ''t1'',
             hand =
               [Card Rank_K Suit_H, Card Rank_Q Suit_D, Card Rank_J Suit_C,
                Card Rank_J Suit_S, Card Rank_10 Suit_H, Card Rank_9 Suit_D,
                Card Rank_8 Suit_C, Card Rank_8 Suit_S, Card Rank_7 Suit_H,
                Card Rank_6 Suit_D, Card Rank_5 Suit_C, Card Rank_5 Suit_S,
                Card Rank_4 Suit_H, Card Rank_3 Suit_D, Card Rank_2 Suit_C,
                Card Rank_2 Suit_S, Card Rank_A Suit_H],
             isHost = True\<rparr>,
          \<lparr>id_player = ''b'', name = ''Bob'', socketId = ''tb'',
             hand =
               [Card Rank_K Suit_C, Card Rank_K Suit_S, Card Rank_Q Suit_H,
                Card Rank_J Suit_D, Card Rank_10 Suit_C, Card Rank_10 Suit_S,
                Card Rank_9 Suit_H, Card Rank_8 Suit_D, Card Rank_7 Suit_C,
                Card Rank_7 Suit_S, Card Rank_6 Suit_H, Card Rank_5 Suit_D,
                Card Rank_4 Suit_C, Card Rank_4 Suit_S, Card Rank_3 Suit_H,
                Card Rank_2 Suit_D, Card Rank_A Suit_C, Card Rank_A Suit_S],
             isHost = False\<rparr>,
          \<lparr>id_player = ''s2'', name = ''Sam'', socketId = ''t2'',
             hand =
               [Card Rank_K Suit_D, Card Rank_Q Suit_C, Card Rank_Q Suit_S,
                Card Rank_J Suit_H, Card Rank_10 Suit_D, Card Rank_9 Suit_C,
                Card Rank_9 Suit_S, Card Rank_8 Suit_H, Card Rank_7 Suit_D,
                Card Rank_6 Suit_C, Card Rank_6 Suit_S, Card Rank_5 Suit_H,
                Card Rank_4 Suit_D, Card Rank_3 Suit_C, Card Rank_3 Suit_S,
                Card Rank_2 Suit_H, Card Rank_A Suit_D],
             isHost = False\<rparr>],
       hostId = ''s1'', started = True, currentTurnIndex = 1,
       currentRequiredRank = Rank_A, pileFaceDown = [], lastPlay = None,
       bsWindowUntil = None, peanutButterEligiblePlayerId = None,
       hasNextPlayerPlayedAfterLiar = Some False\<rparr>"
  unfolding two_sams_table_def two_sams_lobby_eq by code_simp

lemma two_sams_played_eq:
  "two_sams_played =
   \<lparr>id_game = ''g2'',
       players =
         [\<lparr>id_player = ''s1'', name = ''Sam'', socketId = ''t1'',
             hand =
               [Card Rank_K Suit_H, Card Rank_Q Suit_D, Card Rank_J Suit_C,
                Card Rank_J Suit_S, Card Rank_10 Suit_H, Card Rank_9 Suit_D,
                Card Rank_8 Suit_C, Card Rank_8 Suit_S, Card Rank_7 Suit_H,
                Card Rank_6 Suit_D, Card Rank_5 Suit_C, Card Rank_5 Suit_S,
                Card Rank_4 Suit_H, Card Rank_3 Suit_D, Card Rank_2 Suit_C,
                Card Rank_2 Suit_S, Card Rank_A Suit_H],
             isHost = True\<rparr>,
          \<lparr>id_player = ''b'', name = ''Bob'', socketId = ''tb'',
             hand =
               [Card Rank_K Suit_C, Card Rank_K Suit_S, Card Rank_Q Suit_H,
                Card Rank_J Suit_D, Card Rank_10 Suit_C, Card Rank_10 Suit_S,
                Card Rank_9 Suit_H, Card Rank_8 Suit_D, Card Rank_7 Suit_C,
                Card Rank_7 Suit_S, Card Rank_6 Suit_H, Card Rank_4 Suit_C,
                Card Rank_4 Suit_S, Card Rank_3 Suit_H, Card Rank_2 Suit_D,
                Card Rank_A Suit_C, Card Rank_A Suit_S],
             isHost = False\<rparr>,
          \<lparr>id_player = ''s2'', name = ''Sam'', socketId = ''t2'',
             hand =
               [Card Rank_Q Suit_C, Card Rank_Q Suit_S, Card Rank_J Suit_H,
                Card Rank_10 Suit_D, Card Rank_9 Suit_C, Card Rank_9 Suit_S,
                Card Rank_8 Suit_H, Card Rank_7 Suit_D, Card Rank_6 Suit_C,
                Card Rank_6 Suit_S, Card Rank_5 Suit_H, Card Rank_4 Suit_D,
                Card Rank_3 Suit_C, Card Rank_3 Suit_S, Card Rank_2 Suit_H,
                Card Rank_A Suit_D],
             isHost = False\<rparr>],
       hostId = ''s1'', started = True, currentTurnIndex = 0,
       currentRequiredRank = Rank_3,
       pileFaceDown = [Card Rank_5 Suit_D, Card Rank_K Suit_D],
       lastPlay =
         Some \<lparr>username = ''Sam'', count_play = 1, claimedRank = Rank_2\<rparr>,
       bsWindowUntil = Some 14000, peanutButterEligiblePlayerId = Some ''s2'',
       hasNextPlayerPlayedAfterLiar = Some True\<rparr>"
  unfolding two_sams_played_def two_sams_table_eq by code_simp

lemmas handler_defs =
  game_play_def game_bs_def game_peanutButter_def disconnect_game_def after_def
  give_pile_def truthy_id_def truthy_flag_def outside_window_def getMaxSelectable_def
  ceilDiv_def not_owned_def indexOf_def splice_indexOf_def remove_nth_def slice_neg_def
  startsWith_rank nextRank_def ranksInOrder_def js_index_def all_hands_def Let_def


section \<open>Counter-challenge eligibility (C1)\<close>

text \<open>
  C1.  The claim: after Alice plays unchallenged and Bob then plays, Alice's
  counter-challenge succeeds and the pile goes to Bob.  The code at that input: Bob's
  play overwrites the eligible player with Bob, so Alice's invocation is rejected and
  nothing moves; the only invocation that is accepted is Bob's own, and it hands the
  pile of two cards to Bob himself.
\<close>

theorem counter_challenge_scenario:
  "peanutButterEligiblePlayerId after_alice = Some ''a'' \<and>
   peanutButterEligiblePlayerId after_bob = Some ''b'' \<and>
   hasNextPlayerPlayedAfterLiar after_bob = Some True \<and>
   pileFaceDown after_bob = [Card Rank_5 Suit_D, Card Rank_6 Suit_C] \<and>
   game_peanutButter after_bob ''a'' = None \<and>
   game_peanutButter after_bob ''b'' \<noteq> None \<and>
   pileFaceDown (after after_bob (game_peanutButter after_bob ''b'')) = [] \<and>
   hand (players (after after_bob (game_peanutButter after_bob ''b'')) ! 2) =
     hand (players after_bob ! 2) @ [Card Rank_5 Suit_D, Card Rank_6 Suit_C]"
  by (simp add: after_alice_eq after_bob_eq handler_defs)

theorem counter_challenge_scenario_witness:
  "game_peanutButter after_bob ''a'' = None \<and>
   peanutButterEligiblePlayerId after_bob = Some ''b''"
  using counter_challenge_scenario by blast

section \<open>Plays with a repeated card (C2)\<close>

text \<open>
  C2.  The claim: an accepted play moves exactly the named cards, none lost and none
  duplicated, also when the submitted array repeats an entry.  The code at the input
  where Alice, holding one five of diamonds, submits it twice: the play is accepted,
  the second removal finds no such card and splices at index \<open>-1\<close>, which takes the
  last card of her hand, the ace of spades; the pile receives the five of diamonds
  twice.  One card has left the session and another is there twice.
\<close>

theorem repeated_card_play:
  "count_list (hand (players table3 ! 1)) (Card Rank_5 Suit_D) = 1 \<and>
   game_play table3 ''a'' [Card Rank_5 Suit_D, Card Rank_5 Suit_D] Rank_5 1000 \<noteq> None \<and>
   pileFaceDown double_five = [Card Rank_5 Suit_D, Card Rank_5 Suit_D] \<and>
   hand (players double_five ! 1) =
     remove1 (Card Rank_A Suit_S) (remove1 (Card Rank_5 Suit_D) (hand (players table3 ! 1))) \<and>
   count_list (all_hands (players double_five) @ pileFaceDown double_five)
     (Card Rank_5 Suit_D) = 2 \<and>
   count_list (all_hands (players double_five) @ pileFaceDown double_five)
     (Card Rank_A Suit_S) = 0 \<and>
   count_list (all_hands (players table3) @ pileFaceDown table3) (Card Rank_A Suit_S) = 1"
  by (simp add: double_five_eq table3_eq handler_defs)

theorem repeated_card_play_witness:
  "pileFaceDown double_five = [Card Rank_5 Suit_D, Card Rank_5 Suit_D] \<and>
   count_list (all_hands (players double_five) @ pileFaceDown double_five)
     (Card Rank_A Suit_S) = 0"
  using repeated_card_play by blast

section \<open>Turn pointer (C4)\<close>

text \<open>
  C4.  The claim: after every operation, a disconnect included, the turn pointer is a
  valid index into the player list.  The code at the input where Alice has played, so
  that the pointer is 2 (Bob), and Carol's connection drops: the list shrinks to Alice
  and Bob, the pointer stays 2 and names nobody, and every play is rejected from then
  on, Bob's and Alice's alike.
\<close>

theorem turn_pointer_after_disconnect:
  "started after_alice \<and> currentTurnIndex after_alice = 2 \<and>
   length (players after_alice) = 3 \<and>
   disconnect_game after_alice ''sc'' \<noteq> None \<and>
   started carol_left \<and>
   map id_player (players carol_left) = [''a'', ''b''] \<and>
   currentTurnIndex carol_left = 2 \<and>
   length (players carol_left) = 2 \<and>
   game_play carol_left ''b'' [Card Rank_K Suit_D] Rank_2 2000 = None \<and>
   game_play carol_left ''a'' [Card Rank_K Suit_C] Rank_2 2000 = None"
  by (simp add: after_alice_eq carol_left_eq handler_defs)

theorem turn_pointer_after_disconnect_witness:
  "currentTurnIndex carol_left = 2 \<and> length (players carol_left) = 2"
  using turn_pointer_after_disconnect by blast

section \<open>Lookup by name when names are unique\<close>

lemma findIndex_distinct_name:
  assumes "a < length ps" and "name (ps ! a) = u" and "distinct (map name ps)"
  shows "findIndex (\<lambda>p. name p = u) ps = Some a"
proof (rule findIndex_first)
  show "a < length ps" by fact
  show "name (ps ! a) = u" by fact
  show "\<forall>j<a. name (ps ! j) \<noteq> u"
  proof (intro allI impI)
    fix j assume j: "j < a"
    then have jl: "j < length (map name ps)" and al: "a < length (map name ps)"
      using assms(1) by simp_all
    have "(map name ps ! j = map name ps ! a) = (j = a)"
      using assms(3) jl al by (rule nth_eq_iff_index_eq)
    then have "map name ps ! j \<noteq> map name ps ! a" using j by simp
    then show "name (ps ! j) \<noteq> u" using assms(1,2) j by simp
  qed
qed

lemma list_ex_rank:
  "list_ex (\<lambda>x. rank_of x \<noteq> r) xs \<longleftrightarrow> \<not> (\<forall>x\<in>set xs. rank_of x = r)"
  by (auto simp: list_ex_iff)

section \<open>Challenge resolution (C5)\<close>

text \<open>
  C5, amended.  A challenge that arrives while the window is open and a play exists,
  from a current player, while the acting player of the challenged play is still in the
  session and display names are unique: the handler inspects exactly the last \<open>count\<close>
  cards of the pile, \<open>count\<close> being the declared count of the challenged play (a
  recorded play has at least one card); the play is truthful iff each of them has the
  claimed rank; the acting player receives the whole pile if it is untruthful, the
  challenger if it is truthful; and either way the pile is empty afterwards and
  \<open>lastPlay\<close>, the deadline and the counter-challenge eligibility are cleared.
  A challenge from an id that is no current player, or against a play whose recorded
  name no current player bears, is rejected and changes nothing.
\<close>

theorem challenge_resolution_amended:
  "(started g \<and> lastPlay g = Some lp \<and>
    bsWindowUntil g = Some t \<and> t \<noteq> 0 \<and> now \<le> t \<and>
    0 < count_play lp \<and>
    findIndex (\<lambda>p. id_player p = by) (players g) = Some c \<and>
    a < length (players g) \<and> name (players g ! a) = username lp \<and>
    distinct (map name (players g)) \<and>
    inspected = drop (length (pileFaceDown g) - count_play lp) (pileFaceDown g) \<and>
    truthful = (\<forall>x\<in>set inspected. rank_of x = claimedRank lp) \<and>
    k = (if truthful then c else a) \<longrightarrow>
      (\<exists>g'. game_bs g by now = Some g' \<and>
         players g' =
           (players g)[k := (players g ! k)\<lparr>hand := hand (players g ! k) @ pileFaceDown g\<rparr>] \<and>
         pileFaceDown g' = [] \<and> lastPlay g' = None \<and> bsWindowUntil g' = None \<and>
         peanutButterEligiblePlayerId g' = None \<and>
         hasNextPlayerPlayedAfterLiar g' = Some False)) \<and>
   ((\<forall>p\<in>set (players h). id_player p \<noteq> caller) \<or>
    (\<exists>lq. lastPlay h = Some lq \<and> (\<forall>p\<in>set (players h). name p \<noteq> username lq)) \<longrightarrow>
      game_bs h caller arrival = None \<and>
      after h (game_bs h caller arrival) = h)"
proof (intro conjI impI)
  assume h: "started g \<and> lastPlay g = Some lp \<and>
    bsWindowUntil g = Some t \<and> t \<noteq> 0 \<and> now \<le> t \<and>
    0 < count_play lp \<and>
    findIndex (\<lambda>p. id_player p = by) (players g) = Some c \<and>
    a < length (players g) \<and> name (players g ! a) = username lp \<and>
    distinct (map name (players g)) \<and>
    inspected = drop (length (pileFaceDown g) - count_play lp) (pileFaceDown g) \<and>
    truthful = (\<forall>x\<in>set inspected. rank_of x = claimedRank lp) \<and>
    k = (if truthful then c else a)"
  then have w: "started g" "lastPlay g = Some lp" "bsWindowUntil g = Some t" "t \<noteq> 0"
      "now \<le> t"
    and cnt: "0 < count_play lp"
    and c: "findIndex (\<lambda>p. id_player p = by) (players g) = Some c"
    and a: "a < length (players g)" "name (players g ! a) = username lp"
      "distinct (map name (players g))"
    and i: "inspected = drop (length (pileFaceDown g) - count_play lp) (pileFaceDown g)"
    and tr: "truthful = (\<forall>x\<in>set inspected. rank_of x = claimedRank lp)"
    and k: "k = (if truthful then c else a)"
    by simp_all
  have l: "findIndex (\<lambda>p. name p = username lp) (players g) = Some a"
    using a by (rule findIndex_distinct_name)
  have s: "slice_neg (count_play lp) (pileFaceDown g) = inspected"
    using cnt i by (simp add: slice_neg_def)
  have "(if list_ex (\<lambda>x. rank_of x \<noteq> claimedRank lp)
              (slice_neg (count_play lp) (pileFaceDown g)) then a else c) = k"
    unfolding s list_ex_rank using tr k by simp
  then show "\<exists>g'. game_bs g by now = Some g' \<and>
         players g' =
           (players g)[k := (players g ! k)\<lparr>hand := hand (players g ! k) @ pileFaceDown g\<rparr>] \<and>
         pileFaceDown g' = [] \<and> lastPlay g' = None \<and> bsWindowUntil g' = None \<and>
         peanutButterEligiblePlayerId g' = None \<and>
         hasNextPlayerPlayedAfterLiar g' = Some False"
    unfolding game_bs_eq [OF w l c]
    by (simp add: give_pile_def)
next
  assume r: "(\<forall>p\<in>set (players h). id_player p \<noteq> caller) \<or>
    (\<exists>lq. lastPlay h = Some lq \<and> (\<forall>p\<in>set (players h). name p \<noteq> username lq))"
  show n: "game_bs h caller arrival = None"
  proof (cases "\<forall>p\<in>set (players h). id_player p \<noteq> caller")
    case True
    then have "findIndex (\<lambda>p. id_player p = caller) (players h) = None"
      by (simp add: findIndex_None)
    then show ?thesis
      by (simp add: game_bs_def Let_def split: option.splits)
  next
    case False
    with r obtain lq where lq: "lastPlay h = Some lq"
      and nn: "\<forall>p\<in>set (players h). name p \<noteq> username lq" by blast
    from nn have "findIndex (\<lambda>p. name p = username lq) (players h) = None"
      by (simp add: findIndex_None)
    with lq show ?thesis
      by (simp add: game_bs_def Let_def)
  qed
  then show "after h (game_bs h caller arrival) = h" by (simp add: after_def)
qed

theorem challenge_resolution_amended_witness:
  "(\<exists>g'. game_bs after_alice ''b'' 2000 = Some g' \<and>
      players g' =
        (players after_alice)[2 := (players after_alice ! 2)
           \<lparr>hand := hand (players after_alice ! 2) @ [Card Rank_5 Suit_D]\<rparr>] \<and>
      pileFaceDown g' = [] \<and> lastPlay g' = None \<and> bsWindowUntil g' = None \<and>
      peanutButterEligiblePlayerId g' = None \<and>
      hasNextPlayerPlayedAfterLiar g' = Some False) \<and>
   game_bs alice_left ''b'' 2000 = None \<and>
   after alice_left (game_bs alice_left ''b'' 2000) = alice_left"
proof -
  let ?lp = "\<lparr>username = ''Alice'', count_play = 1, claimedRank = Rank_5\<rparr>"
  have h: "started after_alice \<and> lastPlay after_alice = Some ?lp \<and>
    bsWindowUntil after_alice = Some 6000 \<and> (6000::nat) \<noteq> 0 \<and> (2000::nat) \<le> 6000 \<and>
    0 < count_play ?lp \<and>
    findIndex (\<lambda>p. id_player p = ''b'') (players after_alice) = Some 2 \<and>
    1 < length (players after_alice) \<and>
    name (players after_alice ! 1) = username ?lp \<and>
    distinct (map name (players after_alice)) \<and>
    [Card Rank_5 Suit_D] =
      drop (length (pileFaceDown after_alice) - count_play ?lp) (pileFaceDown after_alice) \<and>
    True = (\<forall>x\<in>set [Card Rank_5 Suit_D]. rank_of x = claimedRank ?lp) \<and>
    (2::nat) = (if True then 2 else 1)"
    by (simp add: after_alice_eq)
  have p: "pileFaceDown after_alice = [Card Rank_5 Suit_D]"
    by (simp add: after_alice_eq)
  have r: "(\<forall>p\<in>set (players alice_left). id_player p \<noteq> ''b'') \<or>
    (\<exists>lq. lastPlay alice_left = Some lq \<and>
       (\<forall>p\<in>set (players alice_left). name p \<noteq> username lq))"
    by (simp add: alice_left_eq)
  from challenge_resolution_amended
    [of after_alice ?lp 6000 2000 "''b''" 2 1 "[Card Rank_5 Suit_D]" True 2
        alice_left "''b''" 2000] h r
  show ?thesis unfolding p by blast
qed

text \<open>
  The claim as stated fails when the acting player has left: Alice plays and her
  connection drops; Bob challenges at time 2000, inside the window that closes at 6000.
  No current player is called Alice, the handler returns, and the pile stays.
\<close>

theorem challenge_after_actor_left_counterexample:
  "started alice_left \<and>
   lastPlay alice_left = Some \<lparr>username = ''Alice'', count_play = 1, claimedRank = Rank_5\<rparr> \<and>
   bsWindowUntil alice_left = Some 6000 \<and>
   map id_player (players alice_left) = [''c'', ''b''] \<and>
   game_bs alice_left ''b'' 2000 = None \<and>
   pileFaceDown (after alice_left (game_bs alice_left ''b'' 2000)) = [Card Rank_5 Suit_D]"
  by (simp add: alice_left_eq handler_defs)

section \<open>When a settlement is accepted\<close>

lemma findIndex_Some_iff_ex: "(\<exists>i. findIndex P xs = Some i) \<longleftrightarrow> (\<exists>x\<in>set xs. P x)"
  using findIndex_None [of P xs] by (cases "findIndex P xs") auto

lemma game_peanutButter_Some_iff:
  "(\<exists>g'. game_peanutButter g by = Some g') \<longleftrightarrow>
   started g \<and> peanutButterEligiblePlayerId g = Some by \<and> by \<noteq> [] \<and>
   hasNextPlayerPlayedAfterLiar g = Some True \<and>
   (\<exists>lp. lastPlay g = Some lp \<and> (\<exists>p\<in>set (players g). name p = username lp))"
proof
  assume "\<exists>g'. game_peanutButter g by = Some g'"
  then obtain g' where "game_peanutButter g by = Some g'" ..
  from game_peanutButter_SomeD [OF this] obtain lp l where
    h: "started g" "peanutButterEligiblePlayerId g = Some by" "by \<noteq> []"
       "hasNextPlayerPlayedAfterLiar g = Some True" "lastPlay g = Some lp"
       "findIndex (\<lambda>p. name p = username lp) (players g) = Some l"
    by blast
  from h(6) have "\<exists>p\<in>set (players g). name p = username lp"
    unfolding findIndex_Some_iff_ex [symmetric] by blast
  with h show
    "started g \<and> peanutButterEligiblePlayerId g = Some by \<and> by \<noteq> [] \<and>
     hasNextPlayerPlayedAfterLiar g = Some True \<and>
     (\<exists>lp. lastPlay g = Some lp \<and> (\<exists>p\<in>set (players g). name p = username lp))"
    by blast
next
  assume a: "started g \<and> peanutButterEligiblePlayerId g = Some by \<and> by \<noteq> [] \<and>
     hasNextPlayerPlayedAfterLiar g = Some True \<and>
     (\<exists>lp. lastPlay g = Some lp \<and> (\<exists>p\<in>set (players g). name p = username lp))"
  then obtain lp where lp: "lastPlay g = Some lp"
    and ex: "\<exists>p\<in>set (players g). name p = username lp" by blast
  from ex obtain l where l: "findIndex (\<lambda>p. name p = username lp) (players g) = Some l"
    using findIndex_Some_iff_ex [of "\<lambda>p. name p = username lp" "players g"] by blast
  from a lp l show "\<exists>g'. game_peanutButter g by = Some g'"
    by (simp add: game_peanutButter_eq)
qed

lemma game_bs_Some_iff:
  "(\<exists>g'. game_bs g by now = Some g') \<longleftrightarrow>
   started g \<and>
   (\<exists>lp t. lastPlay g = Some lp \<and> bsWindowUntil g = Some t \<and> t \<noteq> 0 \<and> now \<le> t \<and>
      (\<exists>p\<in>set (players g). name p = username lp) \<and>
      (\<exists>p\<in>set (players g). id_player p = by))"
proof
  assume "\<exists>g'. game_bs g by now = Some g'"
  then obtain g' where "game_bs g by now = Some g'" ..
  from game_bs_SomeD [OF this] obtain lp t l c where
    h: "started g" "lastPlay g = Some lp" "bsWindowUntil g = Some t" "t \<noteq> 0" "now \<le> t"
       "findIndex (\<lambda>p. name p = username lp) (players g) = Some l"
       "findIndex (\<lambda>p. id_player p = by) (players g) = Some c"
    by blast
  from h(6) have e1: "\<exists>p\<in>set (players g). name p = username lp"
    unfolding findIndex_Some_iff_ex [symmetric] by blast
  from h(7) have e2: "\<exists>p\<in>set (players g). id_player p = by"
    unfolding findIndex_Some_iff_ex [symmetric] by blast
  from h e1 e2 show
    "started g \<and>
     (\<exists>lp t. lastPlay g = Some lp \<and> bsWindowUntil g = Some t \<and> t \<noteq> 0 \<and> now \<le> t \<and>
        (\<exists>p\<in>set (players g). name p = username lp) \<and>
        (\<exists>p\<in>set (players g). id_player p = by))"
    by blast
next
  assume a: "started g \<and>
     (\<exists>lp t. lastPlay g = Some lp \<and> bsWindowUntil g = Some t \<and> t \<noteq> 0 \<and> now \<le> t \<and>
        (\<exists>p\<in>set (players g). name p = username lp) \<and>
        (\<exists>p\<in>set (players g). id_player p = by))"
  then obtain lp t where h: "started g" "lastPlay g = Some lp" "bsWindowUntil g = Some t"
      "t \<noteq> 0" "now \<le> t"
    and e1: "\<exists>p\<in>set (players g). name p = username lp"
    and e2: "\<exists>p\<in>set (players g). id_player p = by" by blast
  from e1 obtain l where l: "findIndex (\<lambda>p. name p = username lp) (players g) = Some l"
    using findIndex_Some_iff_ex [of "\<lambda>p. name p = username lp" "players g"] by blast
  from e2 obtain c where c: "findIndex (\<lambda>p. id_player p = by) (players g) = Some c"
    using findIndex_Some_iff_ex [of "\<lambda>p. id_player p = by" "players g"] by blast
  show "\<exists>g'. game_bs g by now = Some g'"
    by (simp add: game_bs_eq [OF h l c])
qed

lemma game_bs_cleared:
  assumes "game_bs g by now = Some g'"
  shows "lastPlay g' = None \<and> bsWindowUntil g' = None \<and> pileFaceDown g' = [] \<and>
         peanutButterEligiblePlayerId g' = None \<and> hasNextPlayerPlayedAfterLiar g' = Some False \<and>
         started g'"
proof -
  from game_bs_SomeD [OF assms] obtain lp t l c where
    h: "started g" "lastPlay g = Some lp" "bsWindowUntil g = Some t" "t \<noteq> 0" "now \<le> t"
       "findIndex (\<lambda>p. name p = username lp) (players g) = Some l"
       "findIndex (\<lambda>p. id_player p = by) (players g) = Some c"
    by blast
  from assms show ?thesis unfolding game_bs_eq [OF h] using h(1) by auto
qed

lemma game_peanutButter_cleared:
  assumes "game_peanutButter g by = Some g'"
  shows "lastPlay g' = None \<and> pileFaceDown g' = [] \<and>
         peanutButterEligiblePlayerId g' = None \<and> hasNextPlayerPlayedAfterLiar g' = Some False"
proof -
  from game_peanutButter_SomeD [OF assms] obtain lp l where
    h: "started g" "peanutButterEligiblePlayerId g = Some by" "by \<noteq> []"
       "hasNextPlayerPlayedAfterLiar g = Some True" "lastPlay g = Some lp"
       "findIndex (\<lambda>p. name p = username lp) (players g) = Some l"
    by blast
  from assms show ?thesis unfolding game_peanutButter_eq [OF h] by auto
qed

section \<open>Consuming the counter-challenge (C6)\<close>

text \<open>
  C6, amended.  An accepted counter-challenge consumes the eligibility: the eligible
  player, the flag \<open>hasNextPlayerPlayedAfterLiar\<close> and \<open>lastPlay\<close> are cleared, so an
  invocation that follows it directly is rejected, whoever makes it.  An invocation
  that fails one of its checks changes nothing, the eligibility included.
\<close>

theorem counter_challenge_consumption_amended:
  "(game_peanutButter g by = Some g' \<longrightarrow>
      peanutButterEligiblePlayerId g' = None \<and>
      hasNextPlayerPlayedAfterLiar g' = Some False \<and>
      lastPlay g' = None \<and>
      game_peanutButter g' again = None) \<and>
   (\<not> (started h \<and> peanutButterEligiblePlayerId h = Some caller \<and> caller \<noteq> [] \<and>
        hasNextPlayerPlayedAfterLiar h = Some True \<and>
        (\<exists>lp. lastPlay h = Some lp \<and> (\<exists>p\<in>set (players h). name p = username lp))) \<longrightarrow>
      game_peanutButter h caller = None \<and>
      after h (game_peanutButter h caller) = h)"
proof (intro conjI impI)
  assume a: "game_peanutButter g by = Some g'"
  from game_peanutButter_cleared [OF a]
  show "peanutButterEligiblePlayerId g' = None" "hasNextPlayerPlayedAfterLiar g' = Some False"
    "lastPlay g' = None" by simp_all
  then show "game_peanutButter g' again = None"
    by (simp add: game_peanutButter_def truthy_id_def)
next
  assume n: "\<not> (started h \<and> peanutButterEligiblePlayerId h = Some caller \<and> caller \<noteq> [] \<and>
        hasNextPlayerPlayedAfterLiar h = Some True \<and>
        (\<exists>lp. lastPlay h = Some lp \<and> (\<exists>p\<in>set (players h). name p = username lp)))"
  then have "\<not> (\<exists>g'. game_peanutButter h caller = Some g')"
    unfolding game_peanutButter_Some_iff .
  then show "game_peanutButter h caller = None" by simp
  then show "after h (game_peanutButter h caller) = h" by (simp add: after_def)
qed

theorem counter_challenge_consumption_amended_witness:
  "game_peanutButter after_bob ''b'' \<noteq> None \<and>
   game_peanutButter (after after_bob (game_peanutButter after_bob ''b'')) ''b'' = None \<and>
   game_peanutButter after_bob ''c'' = None \<and>
   after after_bob (game_peanutButter after_bob ''c'') = after_bob"
proof -
  have 1: "game_peanutButter after_bob ''b'' \<noteq> None"
    by (simp add: after_bob_eq handler_defs)
  then obtain g' where g': "game_peanutButter after_bob ''b'' = Some g'" by blast
  have 2: "\<not> (started after_bob \<and> peanutButterEligiblePlayerId after_bob = Some ''c'' \<and>
        ''c'' \<noteq> [] \<and> hasNextPlayerPlayedAfterLiar after_bob = Some True \<and>
        (\<exists>lp. lastPlay after_bob = Some lp \<and>
           (\<exists>p\<in>set (players after_bob). name p = username lp)))"
    by (simp add: after_bob_eq)
  from counter_challenge_consumption_amended [of after_bob "''b''" g' "''b''" after_bob "''c''"]
    g' 2 1
  show ?thesis by (simp add: after_def)
qed

text \<open>
  The claim as stated fails: Carol, who is not eligible, invokes after Bob's play and is
  rejected; the eligibility is still Bob's, and Bob's invocation after hers is accepted.
\<close>

theorem failed_invocation_keeps_eligibility_counterexample:
  "game_peanutButter after_bob ''c'' = None \<and>
   peanutButterEligiblePlayerId (after after_bob (game_peanutButter after_bob ''c'')) = Some ''b'' \<and>
   hasNextPlayerPlayedAfterLiar (after after_bob (game_peanutButter after_bob ''c'')) = Some True \<and>
   game_peanutButter (after after_bob (game_peanutButter after_bob ''c'')) ''b'' \<noteq> None"
  by (simp add: after_bob_eq handler_defs)

section \<open>The challenge window (C7)\<close>

text \<open>
  C7, amended.  Every accepted play stamps the deadline \<open>now + 5000\<close>.  A challenge
  changes the session iff the session is started, a play exists, the challenge arrives
  at or before the deadline (a deadline of 0 counts as none; a stamped one is never 0),
  the challenger is a current player and some current player bears the name recorded
  with the play.  A settled challenge clears the deadline and the play, so every
  further challenge is rejected and changes nothing.
\<close>

theorem challenge_window_amended:
  "(game_play g by cards claimed now = Some g1 \<longrightarrow> bsWindowUntil g1 = Some (now + 5000)) \<and>
   (after h (game_bs h caller arrival) \<noteq> h \<longleftrightarrow>
      started h \<and>
      (\<exists>lp t. lastPlay h = Some lp \<and> bsWindowUntil h = Some t \<and> t \<noteq> 0 \<and> arrival \<le> t \<and>
         (\<exists>p\<in>set (players h). name p = username lp) \<and>
         (\<exists>p\<in>set (players h). id_player p = caller))) \<and>
   (game_bs k challenger time = Some k' \<longrightarrow>
      bsWindowUntil k' = None \<and> lastPlay k' = None \<and>
      game_bs k' again later = None \<and>
      after k' (game_bs k' again later) = k')"
proof (intro conjI impI)
  assume "game_play g by cards claimed now = Some g1"
  from game_play_SomeD [OF this] show "bsWindowUntil g1 = Some (now + 5000)" by auto
next
  show "after h (game_bs h caller arrival) \<noteq> h \<longleftrightarrow>
      started h \<and>
      (\<exists>lp t. lastPlay h = Some lp \<and> bsWindowUntil h = Some t \<and> t \<noteq> 0 \<and> arrival \<le> t \<and>
         (\<exists>p\<in>set (players h). name p = username lp) \<and>
         (\<exists>p\<in>set (players h). id_player p = caller))"
  proof (cases "game_bs h caller arrival")
    case None
    then have "\<not> (\<exists>g'. game_bs h caller arrival = Some g')" by simp
    then show ?thesis
      unfolding game_bs_Some_iff by (simp add: None after_def)
  next
    case (Some h')
    have "lastPlay h' = None" using game_bs_cleared [OF Some] by simp
    moreover have "lastPlay h \<noteq> None" using game_bs_SomeD [OF Some] by auto
    ultimately have "h' \<noteq> h" by auto
    moreover have "\<exists>g'. game_bs h caller arrival = Some g'" using Some by simp
    ultimately show ?thesis
      unfolding game_bs_Some_iff [symmetric] by (simp add: Some after_def)
  qed
next
  assume a: "game_bs k challenger time = Some k'"
  from game_bs_cleared [OF a]
  show c: "bsWindowUntil k' = None" "lastPlay k' = None" by simp_all
  then show n: "game_bs k' again later = None" by (simp add: game_bs_def)
  then show "after k' (game_bs k' again later) = k'" by (simp add: after_def)
qed

theorem challenge_window_amended_witness:
  "game_play table3 ''a'' [Card Rank_5 Suit_D] Rank_5 1000 \<noteq> None \<and>
   bsWindowUntil after_alice = Some 6000 \<and>
   after after_alice (game_bs after_alice ''b'' 2000) \<noteq> after_alice \<and>
   game_bs (after after_alice (game_bs after_alice ''b'' 2000)) ''c'' 2500 = None"
proof -
  have 1: "game_play table3 ''a'' [Card Rank_5 Suit_D] Rank_5 1000 = Some after_alice"
    unfolding after_alice_eq by (simp add: table3_eq handler_defs)
  have 2: "started after_alice \<and>
      (\<exists>lp t. lastPlay after_alice = Some lp \<and> bsWindowUntil after_alice = Some t \<and>
         t \<noteq> 0 \<and> 2000 \<le> t \<and>
         (\<exists>p\<in>set (players after_alice). name p = username lp) \<and>
         (\<exists>p\<in>set (players after_alice). id_player p = ''b''))"
    by (simp add: after_alice_eq)
  have "game_bs after_alice ''b'' 2000 \<noteq> None"
    by (simp add: after_alice_eq handler_defs)
  then obtain k' where 3: "game_bs after_alice ''b'' 2000 = Some k'" by blast
  from challenge_window_amended
    [of table3 "''a''" "[Card Rank_5 Suit_D]" Rank_5 1000 after_alice
        after_alice "''b''" 2000 after_alice "''b''" 2000 k' "''c''" 2500]
    1 2 3
  show ?thesis by (simp add: after_def)
qed

text \<open>
  The claim as stated fails for a challenger who is no current player.  Dave joined the
  lobby and Carol kicked him before starting, so the session is \<open>table3\<close>; his client
  still shows the game, and his challenge at time 2000, inside Alice's window that
  closes at 6000 and while her play exists, changes nothing.
\<close>

theorem challenge_by_kicked_player_counterexample:
  "after lobby4 (session_kick lobby4 ''d'' ''c'') = lobby3 \<and>
   lastPlay after_alice = Some \<lparr>username = ''Alice'', count_play = 1, claimedRank = Rank_5\<rparr> \<and>
   bsWindowUntil after_alice = Some 6000 \<and>
   game_bs after_alice ''d'' 2000 = None \<and>
   after after_alice (game_bs after_alice ''d'' 2000) = after_alice"
  by (simp add: lobby4_eq lobby3_eq session_kick_def after_alice_eq handler_defs)

section \<open>Sessions whose host id names no player\<close>

lemma host_absent_iff: "host_absent g \<longleftrightarrow> hostId g \<notin> set (map id_player (players g))"
proof -
  have "(\<forall>p\<in>set (players g). id_player p \<noteq> hostId g) \<longleftrightarrow>
        hostId g \<notin> id_player ` set (players g)"
    by force
  then show ?thesis by (simp add: host_absent_def list_all_iff)
qed

lemma set_remove_nth: "set (remove_nth i xs) \<subseteq> set xs"
  unfolding remove_nth_def using set_take_subset [of i xs] set_drop_subset [of "Suc i" xs]
  by auto

lemma host_absent_kick: "host_absent h \<Longrightarrow> host_absent (after h (session_kick h pid caller))"
  by (auto simp: host_absent_def list_all_iff session_kick_def after_def)

lemma host_absent_join:
  "host_absent h \<Longrightarrow> newId \<noteq> hostId h \<Longrightarrow>
   host_absent (after h (session_join h uname sock newId))"
  by (auto simp: host_absent_def list_all_iff session_join_def after_def)

lemma host_absent_disconnect:
  assumes "host_absent h"
  shows "host_absent (after h (disconnect_game h sock))"
proof (cases "findIndex (\<lambda>p. socketId p = sock) (players h)")
  case None
  then show ?thesis using assms by (simp add: disconnect_game_def after_def)
next
  case (Some idx)
  then have "idx < length (players h)" by (auto dest: findIndex_Some)
  then have "players h ! idx \<in> set (players h)" by simp
  then have nh: "id_player (players h ! idx) \<noteq> hostId h"
    using assms by (auto simp: host_absent_def list_all_iff)
  have "disconnect_game h sock = Some (h\<lparr>players := remove_nth idx (players h)\<rparr>)"
    using Some nh by (simp add: disconnect_game_def Let_def)
  then show ?thesis
    using assms set_remove_nth [of idx "players h"]
    by (auto simp: host_absent_def list_all_iff after_def)
qed

lemma host_absent_start:
  assumes "host_absent h"
  shows "host_absent (after h (game_start h caller rnd))"
proof (cases "game_start h caller rnd")
  case None
  then show ?thesis using assms by (simp add: after_def)
next
  case (Some h')
  then have c: "\<not> started h" "2 \<le> length (players h)" "caller = hostId h"
    by (auto simp: game_start_def Let_def split: if_splits)
  have "map id_player (players (after h (game_start h (hostId h) rnd))) = map id_player (players h)"
    unfolding game_start_Some [OF c(1,2)] after_def
    by (simp add: deal_list_ids comp_def)
  moreover have "hostId (after h (game_start h (hostId h) rnd)) = hostId h"
    unfolding game_start_Some [OF c(1,2)] after_def by simp
  ultimately show ?thesis using assms unfolding host_absent_iff c(3) by simp
qed

lemma host_absent_rejects:
  assumes "host_absent h" and "\<exists>p\<in>set (players h). id_player p = caller"
  shows "game_start h caller rnd = None" and "session_kick h pid caller = None"
proof -
  from assms have "hostId h \<noteq> caller"
    by (auto simp: host_absent_def list_all_iff)
  then show "game_start h caller rnd = None" and "session_kick h pid caller = None"
    by (simp_all add: game_start_def session_kick_def Let_def)
qed

section \<open>Who receives the pile (C9)\<close>

text \<open>
  C9.  In both settlements the player who stands for the acting player of the last play
  is looked up by display name: the first player of the list whose name equals the
  user name recorded with the last play (\<open>findIndex\<close> on \<open>name\<close>), not the player with
  the acting player's id; that player's hand receives the whole pile at its end and the
  pile is emptied.  In the session with two players called Sam, after the second Sam
  (id \<open>s2\<close>, position 2) has made the last play, a lie: Bob's challenge puts the two
  cards of the pile into the hand of the first Sam (id \<open>s1\<close>, position 0), and so does
  the second Sam's own counter-challenge; the first Sam has not played at all, and the
  hand of the second Sam stays as it was.
\<close>

theorem pile_receiver_found_by_name:
  "(game_bs g by now = Some g' \<longrightarrow>
      (\<exists>lp l c k. lastPlay g = Some lp \<and>
         findIndex (\<lambda>p. name p = username lp) (players g) = Some l \<and>
         findIndex (\<lambda>p. id_player p = by) (players g) = Some c \<and>
         k = (if list_ex (\<lambda>x. rank_of x \<noteq> claimedRank lp)
                   (slice_neg (count_play lp) (pileFaceDown g))
              then l else c) \<and>
         players g' =
           (players g)[k := (players g ! k)\<lparr>hand := hand (players g ! k) @ pileFaceDown g\<rparr>] \<and>
         pileFaceDown g' = [])) \<and>
   (game_peanutButter h caller = Some h' \<longrightarrow>
      (\<exists>lp l. lastPlay h = Some lp \<and>
         findIndex (\<lambda>p. name p = username lp) (players h) = Some l \<and>
         players h' =
           (players h)[l := (players h ! l)\<lparr>hand := hand (players h ! l) @ pileFaceDown h\<rparr>] \<and>
         pileFaceDown h' = [])) \<and>
   map id_player (players two_sams_played) = [''s1'', ''b'', ''s2''] \<and>
   map name (players two_sams_played) = [''Sam'', ''Bob'', ''Sam''] \<and>
   lastPlay two_sams_played =
     Some \<lparr>username = ''Sam'', count_play = 1, claimedRank = Rank_2\<rparr> \<and>
   peanutButterEligiblePlayerId two_sams_played = Some ''s2'' \<and>
   pileFaceDown two_sams_played = [Card Rank_5 Suit_D, Card Rank_K Suit_D] \<and>
   hand (players two_sams_played ! 0) =
     [Card Rank_K Suit_H, Card Rank_Q Suit_D, Card Rank_J Suit_C, Card Rank_J Suit_S,
      Card Rank_10 Suit_H, Card Rank_9 Suit_D, Card Rank_8 Suit_C, Card Rank_8 Suit_S,
      Card Rank_7 Suit_H, Card Rank_6 Suit_D, Card Rank_5 Suit_C, Card Rank_5 Suit_S,
      Card Rank_4 Suit_H, Card Rank_3 Suit_D, Card Rank_2 Suit_C, Card Rank_2 Suit_S,
      Card Rank_A Suit_H] \<and>
   hand (players two_sams_played ! 2) =
     [Card Rank_Q Suit_C, Card Rank_Q Suit_S, Card Rank_J Suit_H, Card Rank_10 Suit_D,
      Card Rank_9 Suit_C, Card Rank_9 Suit_S, Card Rank_8 Suit_H, Card Rank_7 Suit_D,
      Card Rank_6 Suit_C, Card Rank_6 Suit_S, Card Rank_5 Suit_H, Card Rank_4 Suit_D,
      Card Rank_3 Suit_C, Card Rank_3 Suit_S, Card Rank_2 Suit_H, Card Rank_A Suit_D] \<and>
   game_bs two_sams_played ''b'' 9500 \<noteq> None \<and>
   map id_player (players (after two_sams_played (game_bs two_sams_played ''b'' 9500))) =
     [''s1'', ''b'', ''s2''] \<and>
   hand (players (after two_sams_played (game_bs two_sams_played ''b'' 9500)) ! 0) =
     [Card Rank_K Suit_H, Card Rank_Q Suit_D, Card Rank_J Suit_C, Card Rank_J Suit_S,
      Card Rank_10 Suit_H, Card Rank_9 Suit_D, Card Rank_8 Suit_C, Card Rank_8 Suit_S,
      Card Rank_7 Suit_H, Card Rank_6 Suit_D, Card Rank_5 Suit_C, Card Rank_5 Suit_S,
      Card Rank_4 Suit_H, Card Rank_3 Suit_D, Card Rank_2 Suit_C, Card Rank_2 Suit_S,
      Card Rank_A Suit_H, Card Rank_5 Suit_D, Card Rank_K Suit_D] \<and>
   hand (players (after two_sams_played (game_bs two_sams_played ''b'' 9500)) ! 2) =
     [Card Rank_Q Suit_C, Card Rank_Q Suit_S, Card Rank_J Suit_H, Card Rank_10 Suit_D,
      Card Rank_9 Suit_C, Card Rank_9 Suit_S, Card Rank_8 Suit_H, Card Rank_7 Suit_D,
      Card Rank_6 Suit_C, Card Rank_6 Suit_S, Card Rank_5 Suit_H, Card Rank_4 Suit_D,
      Card Rank_3 Suit_C, Card Rank_3 Suit_S, Card Rank_2 Suit_H, Card Rank_A Suit_D] \<and>
   pileFaceDown (after two_sams_played (game_bs two_sams_played ''b'' 9500)) = [] \<and>
   game_peanutButter two_sams_played ''s2'' \<noteq> None \<and>
   map id_player (players (after two_sams_played (game_peanutButter two_sams_played ''s2''))) =
     [''s1'', ''b'', ''s2''] \<and>
   hand (players (after two_sams_played (game_peanutButter two_sams_played ''s2'')) ! 0) =
     [Card Rank_K Suit_H, Card Rank_Q Suit_D, Card Rank_J Suit_C, Card Rank_J Suit_S,
      Card Rank_10 Suit_H, Card Rank_9 Suit_D, Card Rank_8 Suit_C, Card Rank_8 Suit_S,
      Card Rank_7 Suit_H, Card Rank_6 Suit_D, Card Rank_5 Suit_C, Card Rank_5 Suit_S,
      Card Rank_4 Suit_H, Card Rank_3 Suit_D, Card Rank_2 Suit_C, Card Rank_2 Suit_S,
      Card Rank_A Suit_H, Card Rank_5 Suit_D, Card Rank_K Suit_D] \<and>
   hand (players (after two_sams_played (game_peanutButter two_sams_played ''s2'')) ! 2) =
     [Card Rank_Q Suit_C, Card Rank_Q Suit_S, Card Rank_J Suit_H, Card Rank_10 Suit_D,
      Card Rank_9 Suit_C, Card Rank_9 Suit_S, Card Rank_8 Suit_H, Card Rank_7 Suit_D,
      Card Rank_6 Suit_C, Card Rank_6 Suit_S, Card Rank_5 Suit_H, Card Rank_4 Suit_D,
      Card Rank_3 Suit_C, Card Rank_3 Suit_S, Card Rank_2 Suit_H, Card Rank_A Suit_D] \<and>
   pileFaceDown (after two_sams_played (game_peanutButter two_sams_played ''s2'')) = []"
proof -
  have bs: "game_bs g by now = Some g' \<longrightarrow>
      (\<exists>lp l c k. lastPlay g = Some lp \<and>
         findIndex (\<lambda>p. name p = username lp) (players g) = Some l \<and>
         findIndex (\<lambda>p. id_player p = by) (players g) = Some c \<and>
         k = (if list_ex (\<lambda>x. rank_of x \<noteq> claimedRank lp)
                   (slice_neg (count_play lp) (pileFaceDown g))
              then l else c) \<and>
         players g' =
           (players g)[k := (players g ! k)\<lparr>hand := hand (players g ! k) @ pileFaceDown g\<rparr>] \<and>
         pileFaceDown g' = [])"
  proof
    assume a: "game_bs g by now = Some g'"
    from game_bs_SomeD [OF a] obtain lp t l c where
      h: "started g" "lastPlay g = Some lp" "bsWindowUntil g = Some t" "t \<noteq> 0" "now \<le> t"
         "findIndex (\<lambda>p. name p = username lp) (players g) = Some l"
         "findIndex (\<lambda>p. id_player p = by) (players g) = Some c"
      by blast
    define k where "k = (if list_ex (\<lambda>x. rank_of x \<noteq> claimedRank lp)
                   (slice_neg (count_play lp) (pileFaceDown g))
              then l else c)"
    from a have "players g' =
           (players g)[k := (players g ! k)\<lparr>hand := hand (players g ! k) @ pileFaceDown g\<rparr>] \<and>
         pileFaceDown g' = []"
      unfolding game_bs_eq [OF h] give_pile_def k_def by auto
    with h(2,6,7) k_def show "\<exists>lp l c k. lastPlay g = Some lp \<and>
         findIndex (\<lambda>p. name p = username lp) (players g) = Some l \<and>
         findIndex (\<lambda>p. id_player p = by) (players g) = Some c \<and>
         k = (if list_ex (\<lambda>x. rank_of x \<noteq> claimedRank lp)
                   (slice_neg (count_play lp) (pileFaceDown g))
              then l else c) \<and>
         players g' =
           (players g)[k := (players g ! k)\<lparr>hand := hand (players g ! k) @ pileFaceDown g\<rparr>] \<and>
         pileFaceDown g' = []"
      by blast
  qed
  have pb: "game_peanutButter h caller = Some h' \<longrightarrow>
      (\<exists>lp l. lastPlay h = Some lp \<and>
         findIndex (\<lambda>p. name p = username lp) (players h) = Some l \<and>
         players h' =
           (players h)[l := (players h ! l)\<lparr>hand := hand (players h ! l) @ pileFaceDown h\<rparr>] \<and>
         pileFaceDown h' = [])"
  proof
    assume a: "game_peanutButter h caller = Some h'"
    from game_peanutButter_SomeD [OF a] obtain lp l where
      h: "started h" "peanutButterEligiblePlayerId h = Some caller" "caller \<noteq> []"
         "hasNextPlayerPlayedAfterLiar h = Some True" "lastPlay h = Some lp"
         "findIndex (\<lambda>p. name p = username lp) (players h) = Some l"
      by blast
    from a have "players h' =
           (players h)[l := (players h ! l)\<lparr>hand := hand (players h ! l) @ pileFaceDown h\<rparr>] \<and>
         pileFaceDown h' = []"
      unfolding game_peanutButter_eq [OF h] give_pile_def by auto
    with h(5,6) show "\<exists>lp l. lastPlay h = Some lp \<and>
         findIndex (\<lambda>p. name p = username lp) (players h) = Some l \<and>
         players h' =
           (players h)[l := (players h ! l)\<lparr>hand := hand (players h ! l) @ pileFaceDown h\<rparr>] \<and>
         pileFaceDown h' = []"
      by blast
  qed
  have sams: "map id_player (players two_sams_played) = [''s1'', ''b'', ''s2''] \<and>
   map name (players two_sams_played) = [''Sam'', ''Bob'', ''Sam''] \<and>
   lastPlay two_sams_played =
     Some \<lparr>username = ''Sam'', count_play = 1, claimedRank = Rank_2\<rparr> \<and>
   peanutButterEligiblePlayerId two_sams_played = Some ''s2'' \<and>
   pileFaceDown two_sams_played = [Card Rank_5 Suit_D, Card Rank_K Suit_D] \<and>
   hand (players two_sams_played ! 0) =
     [Card Rank_K Suit_H, Card Rank_Q Suit_D, Card Rank_J Suit_C, Card Rank_J Suit_S,
      Card Rank_10 Suit_H, Card Rank_9 Suit_D, Card Rank_8 Suit_C, Card Rank_8 Suit_S,
      Card Rank_7 Suit_H, Card Rank_6 Suit_D, Card Rank_5 Suit_C, Card Rank_5 Suit_S,
      Card Rank_4 Suit_H, Card Rank_3 Suit_D, Card Rank_2 Suit_C, Card Rank_2 Suit_S,
      Card Rank_A Suit_H] \<and>
   hand (players two_sams_played ! 2) =
     [Card Rank_Q Suit_C, Card Rank_Q Suit_S, Card Rank_J Suit_H, Card Rank_10 Suit_D,
      Card Rank_9 Suit_C, Card Rank_9 Suit_S, Card Rank_8 Suit_H, Card Rank_7 Suit_D,
      Card Rank_6 Suit_C, Card Rank_6 Suit_S, Card Rank_5 Suit_H, Card Rank_4 Suit_D,
      Card Rank_3 Suit_C, Card Rank_3 Suit_S, Card Rank_2 Suit_H, Card Rank_A Suit_D] \<and>
   game_bs two_sams_played ''b'' 9500 \<noteq> None \<and>
   map id_player (players (after two_sams_played (game_bs two_sams_played ''b'' 9500))) =
     [''s1'', ''b'', ''s2''] \<and>
   hand (players (after two_sams_played (game_bs two_sams_played ''b'' 9500)) ! 0) =
     [Card Rank_K Suit_H, Card Rank_Q Suit_D, Card Rank_J Suit_C, Card Rank_J Suit_S,
      Card Rank_10 Suit_H, Card Rank_9 Suit_D, Card Rank_8 Suit_C, Card Rank_8 Suit_S,
      Card Rank_7 Suit_H, Card Rank_6 Suit_D, Card Rank_5 Suit_C, Card Rank_5 Suit_S,
      Card Rank_4 Suit_H, Card Rank_3 Suit_D, Card Rank_2 Suit_C, Card Rank_2 Suit_S,
      Card Rank_A Suit_H, Card Rank_5 Suit_D, Card Rank_K Suit_D] \<and>
   hand (players (after two_sams_played (game_bs two_sams_played ''b'' 9500)) ! 2) =
     [Card Rank_Q Suit_C, Card Rank_Q Suit_S, Card Rank_J Suit_H, Card Rank_10 Suit_D,
      Card Rank_9 Suit_C, Card Rank_9 Suit_S, Card Rank_8 Suit_H, Card Rank_7 Suit_D,
      Card Rank_6 Suit_C, Card Rank_6 Suit_S, Card Rank_5 Suit_H, Card Rank_4 Suit_D,
      Card Rank_3 Suit_C, Card Rank_3 Suit_S, Card Rank_2 Suit_H, Card Rank_A Suit_D] \<and>
   pileFaceDown (after two_sams_played (game_bs two_sams_played ''b'' 9500)) = [] \<and>
   game_peanutButter two_sams_played ''s2'' \<noteq> None \<and>
   map id_player (players (after two_sams_played (game_peanutButter two_sams_played ''s2''))) =
     [''s1'', ''b'', ''s2''] \<and>
   hand (players (after two_sams_played (game_peanutButter two_sams_played ''s2'')) ! 0) =
     [Card Rank_K Suit_H, Card Rank_Q Suit_D, Card Rank_J Suit_C, Card Rank_J Suit_S,
      Card Rank_10 Suit_H, Card Rank_9 Suit_D, Card Rank_8 Suit_C, Card Rank_8 Suit_S,
      Card Rank_7 Suit_H, Card Rank_6 Suit_D, Card Rank_5 Suit_C, Card Rank_5 Suit_S,
      Card Rank_4 Suit_H, Card Rank_3 Suit_D, Card Rank_2 Suit_C, Card Rank_2 Suit_S,
      Card Rank_A Suit_H, Card Rank_5 Suit_D, Card Rank_K Suit_D] \<and>
   hand (players (after two_sams_played (game_peanutButter two_sams_played ''s2'')) ! 2) =
     [Card Rank_Q Suit_C, Card Rank_Q Suit_S, Card Rank_J Suit_H, Card Rank_10 Suit_D,
      Card Rank_9 Suit_C, Card Rank_9 Suit_S, Card Rank_8 Suit_H, Card Rank_7 Suit_D,
      Card Rank_6 Suit_C, Card Rank_6 Suit_S, Card Rank_5 Suit_H, Card Rank_4 Suit_D,
      Card Rank_3 Suit_C, Card Rank_3 Suit_S, Card Rank_2 Suit_H, Card Rank_A Suit_D] \<and>
   pileFaceDown (after two_sams_played (game_peanutButter two_sams_played ''s2'')) = []"
    by (simp add: two_sams_played_eq handler_defs)
  from bs pb sams show ?thesis by blast
qed

theorem pile_receiver_found_by_name_witness:
  "\<exists>g' lp l c k. game_bs two_sams_played ''b'' 9500 = Some g' \<and>
     lastPlay two_sams_played = Some lp \<and>
     findIndex (\<lambda>p. name p = username lp) (players two_sams_played) = Some l \<and>
     findIndex (\<lambda>p. id_player p = ''b'') (players two_sams_played) = Some c \<and>
     k = (if list_ex (\<lambda>x. rank_of x \<noteq> claimedRank lp)
               (slice_neg (count_play lp) (pileFaceDown two_sams_played))
          then l else c) \<and>
     players g' =
       (players two_sams_played)[k := (players two_sams_played ! k)
          \<lparr>hand := hand (players two_sams_played ! k) @ pileFaceDown two_sams_played\<rparr>] \<and>
     pileFaceDown g' = []"
proof -
  have "game_bs two_sams_played ''b'' 9500 \<noteq> None"
    by (simp add: two_sams_played_eq handler_defs)
  then obtain g' where g': "game_bs two_sams_played ''b'' 9500 = Some g'" by blast
  from pile_receiver_found_by_name [of two_sams_played "''b''" 9500 g'] g'
  show ?thesis by blast
qed

section \<open>The host kicks herself (C10)\<close>

text \<open>
  C10, amended.  In the lobby, a kick sent with the host id removes every player whose
  id is given, the host included, and leaves \<open>hostId\<close> as it is.  After the host has
  kicked herself the host id names no player, and this stays so under every later kick,
  disconnect and start, and under every join whose new id is not the host id.  In such
  a session every start-game and kick-player action sent with the id of a current player
  is rejected; one sent with the old host id is still accepted.
\<close>

theorem host_self_kick_amended:
  "(\<not> started g \<longrightarrow>
      session_kick g pid (hostId g) =
        Some (g\<lparr>players := filter (\<lambda>p. id_player p \<noteq> pid) (players g)\<rparr>)) \<and>
   (\<not> started g \<longrightarrow>
      host_absent (after g (session_kick g (hostId g) (hostId g))) \<and>
      hostId (after g (session_kick g (hostId g) (hostId g))) = hostId g) \<and>
   (host_absent h \<and> (\<exists>p\<in>set (players h). id_player p = caller) \<longrightarrow>
      game_start h caller rnd = None \<and> session_kick h target caller = None) \<and>
   (host_absent h \<longrightarrow>
      host_absent (after h (session_kick h target sender)) \<and>
      host_absent (after h (disconnect_game h sock)) \<and>
      host_absent (after h (game_start h sender rnd)) \<and>
      (newId \<noteq> hostId h \<longrightarrow> host_absent (after h (session_join h uname sock newId)))) \<and>
   (\<not> started h \<longrightarrow> session_kick h target (hostId h) \<noteq> None) \<and>
   (\<not> started h \<and> 2 \<le> length (players h) \<longrightarrow> game_start h (hostId h) rnd \<noteq> None)"
proof (intro conjI impI)
  assume "\<not> started g"
  then show "session_kick g pid (hostId g) =
        Some (g\<lparr>players := filter (\<lambda>p. id_player p \<noteq> pid) (players g)\<rparr>)"
    by (simp add: session_kick_def)
next
  assume "\<not> started g"
  then show "host_absent (after g (session_kick g (hostId g) (hostId g)))"
    and "hostId (after g (session_kick g (hostId g) (hostId g))) = hostId g"
    by (simp_all add: session_kick_def after_def host_absent_def list_all_iff)
next
  assume "host_absent h \<and> (\<exists>p\<in>set (players h). id_player p = caller)"
  then have a: "host_absent h" and b: "\<exists>p\<in>set (players h). id_player p = caller"
    by simp_all
  from a b show "game_start h caller rnd = None" by (rule host_absent_rejects(1))
  from a b show "session_kick h target caller = None" by (rule host_absent_rejects(2))
next
  assume a: "host_absent h"
  then show "host_absent (after h (session_kick h target sender))" by (rule host_absent_kick)
  from a show "host_absent (after h (disconnect_game h sock))" by (rule host_absent_disconnect)
  from a show "host_absent (after h (game_start h sender rnd))" by (rule host_absent_start)
  assume "newId \<noteq> hostId h"
  with a show "host_absent (after h (session_join h uname sock newId))"
    by (rule host_absent_join)
next
  assume "\<not> started h"
  then show "session_kick h target (hostId h) \<noteq> None" by (simp add: session_kick_def)
next
  assume "\<not> started h \<and> 2 \<le> length (players h)"
  then show "game_start h (hostId h) rnd \<noteq> None" by (simp add: game_start_Some)
qed

theorem host_self_kick_amended_witness:
  "after lobby3 (session_kick lobby3 (hostId lobby3) (hostId lobby3)) = hostless \<and>
   host_absent hostless \<and> hostId hostless = ''c'' \<and>
   game_start hostless ''a'' (\<lambda>i. i) = None \<and>
   session_kick hostless ''b'' ''a'' = None \<and>
   host_absent (after hostless (disconnect_game hostless ''sb'')) \<and>
   game_start hostless ''c'' (\<lambda>i. i) \<noteq> None"
proof -
  have e: "after lobby3 (session_kick lobby3 (hostId lobby3) (hostId lobby3)) = hostless"
    by (simp add: hostless_def lobby3_eq)
  have s: "\<not> started lobby3" by (simp add: lobby3_eq)
  have p: "\<exists>p\<in>set (players hostless). id_player p = ''a''" by (simp add: hostless_eq)
  have q: "\<not> started hostless \<and> 2 \<le> length (players hostless)" "hostId hostless = ''c''"
    by (simp_all add: hostless_eq)
  from host_self_kick_amended
    [of lobby3 "''b''" hostless "''a''" "\<lambda>i. i" "''b''" "''a''" "''sb''"] s p q
  show ?thesis unfolding e by metis
qed

text \<open>
  The claim as stated fails for an action sent with the old host id: Carol, after
  kicking herself, can still kick Alice and can still start the game for Alice and Bob.
\<close>

theorem start_with_stale_host_id_counterexample:
  "\<not> started hostless \<and> hostId hostless = ''c'' \<and>
   map id_player (players hostless) = [''a'', ''b''] \<and>
   session_kick hostless ''a'' ''c'' \<noteq> None \<and>
   game_start hostless ''c'' (\<lambda>i. i) \<noteq> None \<and>
   started (after hostless (game_start hostless ''c'' (\<lambda>i. i)))"
proof -
  have q: "\<not> started hostless" "2 \<le> length (players hostless)" "hostId hostless = ''c''"
    by (simp_all add: hostless_eq)
  have "game_start hostless (hostId hostless) (\<lambda>i. i) \<noteq> None \<and>
        started (after hostless (game_start hostless (hostId hostless) (\<lambda>i. i)))"
    unfolding game_start_Some [OF q(1,2)] after_def by simp
  then have "game_start hostless ''c'' (\<lambda>i. i) \<noteq> None \<and>
        started (after hostless (game_start hostless ''c'' (\<lambda>i. i)))"
    unfolding q(3) .
  moreover have "map id_player (players hostless) = [''a'', ''b''] \<and>
        session_kick hostless ''a'' ''c'' \<noteq> None"
    by (simp add: hostless_eq session_kick_def)
  ultimately show ?thesis using q by blast
qed

end
